theory Spec2Isabelle
  imports Main
begin

section \<open>Text primitives of the router\<close>

text \<open>
  Python strings are modelled as \<^typ>\<open>string\<close>; a \<^typ>\<open>char\<close> stands for one code point
  below 256. On that range \<open>str.lower\<close> changes exactly the letters \<open>A\<close>..\<open>Z\<close> and the
  Latin-1 capitals \<open>0xC0\<close>..\<open>0xDE\<close> (without \<open>0xD7\<close>), each to the code point 32 above it.
\<close>

definition upper_chars :: string where
  "upper_chars = ''ABCDEFGHIJKLMNOPQRSTUVWXYZ'' @
     [CHR 0xC0, CHR 0xC1, CHR 0xC2, CHR 0xC3, CHR 0xC4, CHR 0xC5, CHR 0xC6, CHR 0xC7,
      CHR 0xC8, CHR 0xC9, CHR 0xCA, CHR 0xCB, CHR 0xCC, CHR 0xCD, CHR 0xCE, CHR 0xCF,
      CHR 0xD0, CHR 0xD1, CHR 0xD2, CHR 0xD3, CHR 0xD4, CHR 0xD5, CHR 0xD6,
      CHR 0xD8, CHR 0xD9, CHR 0xDA, CHR 0xDB, CHR 0xDC, CHR 0xDD, CHR 0xDE]"

definition lower_chars :: string where
  "lower_chars = ''abcdefghijklmnopqrstuvwxyz'' @
     [CHR 0xE0, CHR 0xE1, CHR 0xE2, CHR 0xE3, CHR 0xE4, CHR 0xE5, CHR 0xE6, CHR 0xE7,
      CHR 0xE8, CHR 0xE9, CHR 0xEA, CHR 0xEB, CHR 0xEC, CHR 0xED, CHR 0xEE, CHR 0xEF,
      CHR 0xF0, CHR 0xF1, CHR 0xF2, CHR 0xF3, CHR 0xF4, CHR 0xF5, CHR 0xF6,
      CHR 0xF8, CHR 0xF9, CHR 0xFA, CHR 0xFB, CHR 0xFC, CHR 0xFD, CHR 0xFE]"

definition lower_char :: "char \<Rightarrow> char" where
  "lower_char c = (case map_of (zip upper_chars lower_chars) c of Some d \<Rightarrow> d | None \<Rightarrow> c)"

definition lower :: "string \<Rightarrow> string" where
  "lower t = map lower_char t"

text \<open>
  The class \<open>\s\<close> of the \<open>re\<close> module on \<open>str\<close> patterns, which is also what
  \<open>str.strip\<close> and \<open>int\<close> skip: the code points with \<open>isspace\<close> true.
\<close>

definition space_chars :: string where
  "space_chars = [CHR 0x09, CHR 0x0A, CHR 0x0B, CHR 0x0C, CHR 0x0D,
                  CHR 0x1C, CHR 0x1D, CHR 0x1E, CHR 0x1F, CHR 0x20, CHR 0x85, CHR 0xA0]"

definition is_space :: "char \<Rightarrow> bool" where
  "is_space c = (c \<in> set space_chars)"

definition digit_chars :: string where
  "digit_chars = ''0123456789''"

definition is_digit :: "char \<Rightarrow> bool" where
  "is_digit c = (c \<in> set digit_chars)"

text \<open>\<open>t.startswith(p)\<close> and the substring test \<open>p in t\<close>.\<close>

fun starts_with :: "string \<Rightarrow> string \<Rightarrow> bool" where
  "starts_with [] t = True"
| "starts_with (p # ps) [] = False"
| "starts_with (p # ps) (c # cs) = (p = c \<and> starts_with ps cs)"

fun substr_in :: "string \<Rightarrow> string \<Rightarrow> bool" where
  "substr_in p [] = (p = [])"
| "substr_in p (c # cs) = (starts_with p (c # cs) \<or> substr_in p cs)"

section \<open>Intent classification\<close>

text \<open>\<open>classify_intent\<close> of \<open>agents/router_agent.py\<close>: the cascade of keyword tests on the
  lowercased text, returning the label as the string the source returns.\<close>

definition classify_intent :: "string \<Rightarrow> string" where
  "classify_intent text =
     (let t = lower text in
      if (substr_in ''active customers'' t \<and> substr_in ''open ticket'' t)
           \<or> (substr_in ''active customers'' t \<and> substr_in ''open tickets'' t)
        then ''MULTI_OPEN''
      else if substr_in ''update my email'' t \<and> substr_in ''ticket history'' t
        then ''MULTI_UPDATE''
      else if substr_in ''upgrade'' t \<or> substr_in ''upgrading my account'' t
        then ''MULTI_COORD''
      else if substr_in ''charged twice'' t \<or> substr_in ''refund'' t
                \<or> substr_in ''cancel'' t \<or> substr_in ''billing'' t
        then ''SUPPORT''
      else if substr_in ''get customer information'' t \<or> substr_in ''get customer info'' t
                \<or> substr_in ''customer id'' t
        then ''DATA''
      else ''DATA'')"

subsection \<open>The classifier as the specification words it\<close>

text \<open>A phrase occurs in a text case-insensitively when some contiguous piece of the text
  equals the phrase once letter case is ignored.\<close>

definition occurs_ci :: "string \<Rightarrow> string \<Rightarrow> bool" where
  "occurs_ci phrase text = (\<exists>pre w suf. text = pre @ w @ suf \<and> lower w = lower phrase)"

text \<open>The ordered rule table of the specification, first match wins, default \<open>DATA\<close>.\<close>

definition intent_rules :: "(string \<times> (string \<Rightarrow> bool)) list" where
  "intent_rules =
     [(''MULTI_OPEN'', \<lambda>x. occurs_ci ''active customers'' x
                          \<and> (occurs_ci ''open ticket'' x \<or> occurs_ci ''open tickets'' x)),
      (''MULTI_UPDATE'', \<lambda>x. occurs_ci ''update my email'' x \<and> occurs_ci ''ticket history'' x),
      (''MULTI_COORD'', \<lambda>x. occurs_ci ''upgrade'' x \<or> occurs_ci ''upgrading my account'' x),
      (''SUPPORT'', \<lambda>x. occurs_ci ''charged twice'' x \<or> occurs_ci ''refund'' x
                        \<or> occurs_ci ''cancel'' x \<or> occurs_ci ''billing'' x),
      (''DATA'', \<lambda>x. occurs_ci ''get customer information'' x
                     \<or> occurs_ci ''get customer info'' x \<or> occurs_ci ''customer id'' x)]"

definition rule_matches :: "string \<Rightarrow> string \<Rightarrow> bool" where
  "rule_matches label text = (\<exists>p. (label, p) \<in> set intent_rules \<and> p text)"

definition classify_spec :: "string \<Rightarrow> string" where
  "classify_spec text =
     (case find (\<lambda>r. snd r text) intent_rules of Some r \<Rightarrow> fst r | None \<Rightarrow> ''DATA'')"

section \<open>Python values and built-ins used by the router\<close>

text \<open>
  The values that travel as JSON (\<open>Dict[str, Any]\<close> in the source). A dictionary is an
  association list with distinct keys, read with \<^const>\<open>map_of\<close>. Numbers are integers;
  floating-point numbers are not modelled.
\<close>

datatype json =
    JNull
  | JBool bool
  | JInt int
  | JStr string
  | JArr "json list"
  | JObj "(string \<times> json) list"

text \<open>The exceptions that can escape \<open>router_call\<close>.\<close>

datatype error =
    ConnectionError
  | HTTPError nat
  | JSONDecodeError
  | RuntimeError json
  | TypeError
  | AttributeError
  | KeyError string
  | ValueError

definition bind_e :: "error + 'a \<Rightarrow> ('a \<Rightarrow> error + 'b) \<Rightarrow> error + 'b" where
  "bind_e m f = (case m of Inl e \<Rightarrow> Inl e | Inr x \<Rightarrow> f x)"

fun traverse :: "('a \<Rightarrow> error + 'b) \<Rightarrow> 'a list \<Rightarrow> error + 'b list" where
  "traverse f [] = Inr []"
| "traverse f (x # xs) =
     (case f x of Inl e \<Rightarrow> Inl e
      | Inr y \<Rightarrow> (case traverse f xs of Inl e \<Rightarrow> Inl e | Inr ys \<Rightarrow> Inr (y # ys)))"

fun filter_e :: "('a \<Rightarrow> error + bool) \<Rightarrow> 'a list \<Rightarrow> error + 'a list" where
  "filter_e f [] = Inr []"
| "filter_e f (x # xs) =
     (case f x of Inl e \<Rightarrow> Inl e
      | Inr b \<Rightarrow> (case filter_e f xs of Inl e \<Rightarrow> Inl e
                  | Inr ys \<Rightarrow> Inr (if b then x # ys else ys)))"

text \<open>\<open>d.get(k, default)\<close> on a dictionary, and on a value of unknown type
  (\<open>AttributeError\<close> when it is not a dictionary).\<close>

definition dict_get :: "(string \<times> json) list \<Rightarrow> string \<Rightarrow> json \<Rightarrow> json" where
  "dict_get d k dflt = (case map_of d k of Some v \<Rightarrow> v | None \<Rightarrow> dflt)"

fun py_get :: "json \<Rightarrow> string \<Rightarrow> json \<Rightarrow> error + json" where
  "py_get (JObj d) k dflt = Inr (dict_get d k dflt)"
| "py_get x k dflt = Inl AttributeError"

text \<open>\<open>x[k]\<close> with a string key.\<close>

fun py_index :: "json \<Rightarrow> string \<Rightarrow> error + json" where
  "py_index (JObj d) k = (case map_of d k of Some v \<Rightarrow> Inr v | None \<Rightarrow> Inl (KeyError k))"
| "py_index x k = Inl TypeError"

text \<open>\<open>d[k] = v\<close>: replace in place, or append a new key.\<close>

fun dict_set :: "(string \<times> json) list \<Rightarrow> string \<Rightarrow> json \<Rightarrow> (string \<times> json) list" where
  "dict_set [] k v = [(k, v)]"
| "dict_set (p # ps) k v = (if fst p = k then (k, v) # ps else p # dict_set ps k v)"

text \<open>What a \<open>for\<close> loop or a comprehension iterates over.\<close>

fun py_iter :: "json \<Rightarrow> error + json list" where
  "py_iter (JArr xs) = Inr xs"
| "py_iter (JObj d) = Inr (map (\<lambda>kv. JStr (fst kv)) d)"
| "py_iter (JStr s) = Inr (map (\<lambda>c. JStr [c]) s)"
| "py_iter x = Inl TypeError"

text \<open>Truth value of a value in a condition.\<close>

fun truthy :: "json \<Rightarrow> bool" where
  "truthy JNull = False"
| "truthy (JBool b) = b"
| "truthy (JInt i) = (i \<noteq> 0)"
| "truthy (JStr s) = (s \<noteq> [])"
| "truthy (JArr xs) = (xs \<noteq> [])"
| "truthy (JObj d) = (d \<noteq> [])"

text \<open>\<open>sep.join(xs)\<close> and \<open>s.strip()\<close>.\<close>

fun join :: "string \<Rightarrow> string list \<Rightarrow> string" where
  "join sep [] = []"
| "join sep [x] = x"
| "join sep (x # y # ys) = x @ sep @ join sep (y # ys)"

definition strip :: "string \<Rightarrow> string" where
  "strip s = rev (dropWhile is_space (rev (dropWhile is_space s)))"

text \<open>Decimal notation of integers, as \<open>str\<close> and f-strings print them.\<close>

fun show_nat :: "nat \<Rightarrow> string" where
  "show_nat n =
     (if n < 10 then [digit_chars ! n] else show_nat (n div 10) @ [digit_chars ! (n mod 10)])"

declare show_nat.simps [simp del]

definition show_int :: "int \<Rightarrow> string" where
  "show_int i = (if i < 0 then CHR ''-'' # show_nat (nat (- i)) else show_nat (nat i))"

text \<open>\<open>repr\<close> of a string: single quotes unless the text has a single and no double quote;
  backslash, the quote, newline, tab and carriage return escaped; every other code point
  that is not printable written as \<open>\xNN\<close>.\<close>

definition hex_chars :: string where
  "hex_chars = ''0123456789abcdef''"

definition printable :: "char \<Rightarrow> bool" where
  "printable c =
     (let n = (of_char c :: nat) in (32 \<le> n \<and> n \<le> 126) \<or> (161 \<le> n \<and> n \<noteq> 173))"

definition repr_char :: "char \<Rightarrow> char \<Rightarrow> string" where
  "repr_char q c =
     (if c = CHR 0x5C then [CHR 0x5C, CHR 0x5C]
      else if c = q then [CHR 0x5C, q]
      else if c = CHR 0x0A then [CHR 0x5C, CHR ''n'']
      else if c = CHR 0x09 then [CHR 0x5C, CHR ''t'']
      else if c = CHR 0x0D then [CHR 0x5C, CHR ''r'']
      else if printable c then [c]
      else [CHR 0x5C, CHR ''x'', hex_chars ! ((of_char c :: nat) div 16),
            hex_chars ! ((of_char c :: nat) mod 16)])"

definition repr_str :: "string \<Rightarrow> string" where
  "repr_str s =
     (let q = (if CHR 0x27 \<in> set s \<and> CHR 0x22 \<notin> set s then CHR 0x22 else CHR 0x27)
      in q # concat (map (repr_char q) s) @ [q])"

fun py_repr :: "json \<Rightarrow> string" where
  "py_repr JNull = ''None''"
| "py_repr (JBool b) = (if b then ''True'' else ''False'')"
| "py_repr (JInt i) = show_int i"
| "py_repr (JStr s) = repr_str s"
| "py_repr (JArr xs) = ''['' @ join '', '' (map py_repr xs) @ '']''"
| "py_repr (JObj d) =
     ''{'' @ join '', '' (map (\<lambda>kv. repr_str (fst kv) @ '': '' @ py_repr (snd kv)) d) @ ''}''"

text \<open>\<open>str(x)\<close>, which is also how an f-string prints \<open>{x}\<close>.\<close>

fun py_str :: "json \<Rightarrow> string" where
  "py_str (JStr s) = s"
| "py_str x = py_repr x"

text \<open>\<open>int(x)\<close>: integers unchanged, booleans as 0 and 1, a string parsed in base 10
  (surrounding whitespace, a sign, single underscores between digits), anything else a
  \<open>TypeError\<close>. The whitespace \<open>int\<close> skips is that of \<open>isspace\<close> without the four
  separators \<open>0x1C\<close> to \<open>0x1F\<close>. A string with more than 4300 digits is refused with a
  \<open>ValueError\<close>, the default limit of the interpreter (CPython 3.11 and later); the
  digits are counted with leading zeros and without sign, whitespace and underscores.\<close>

definition max_str_digits :: int where
  "max_str_digits = 4300"

definition int_space :: "char \<Rightarrow> bool" where
  "int_space c = (is_space c \<and> c \<notin> set [CHR 0x1C, CHR 0x1D, CHR 0x1E, CHR 0x1F])"

definition digit_val :: "char \<Rightarrow> nat" where
  "digit_val c = length (takeWhile (\<lambda>d. d \<noteq> c) digit_chars)"

definition nat_of_digits :: "string \<Rightarrow> nat" where
  "nat_of_digits ds = foldl (\<lambda>a c. 10 * a + digit_val c) 0 ds"

text \<open>\<open>int(ds)\<close> for a run of digits \<open>ds\<close>, as the router converts group 1 of a match.\<close>

definition int_of_digit_run :: "string \<Rightarrow> error + int" where
  "int_of_digit_run ds =
     (if max_str_digits < int (length ds) then Inl ValueError
      else Inr (int (nat_of_digits ds)))"

definition int_of_str :: "string \<Rightarrow> int option" where
  "int_of_str s =
     (let t = rev (dropWhile int_space (rev (dropWhile int_space s)));
          neg = (t \<noteq> [] \<and> hd t = CHR ''-'');
          body = (if t \<noteq> [] \<and> (hd t = CHR ''-'' \<or> hd t = CHR ''+'') then tl t else t);
          ds = filter is_digit body
      in if body \<noteq> [] \<and> list_all (\<lambda>c. is_digit c \<or> c = CHR ''_'') body
            \<and> is_digit (hd body) \<and> is_digit (last body) \<and> \<not> substr_in ''__'' body
         then (case int_of_digit_run ds of
                 Inr n \<Rightarrow> Some (if neg then - n else n)
               | Inl e \<Rightarrow> None)
         else None)"

fun py_int :: "json \<Rightarrow> error + int" where
  "py_int (JInt i) = Inr i"
| "py_int (JBool b) = Inr (if b then 1 else 0)"
| "py_int (JStr s) = (case int_of_str s of Some i \<Rightarrow> Inr i | None \<Rightarrow> Inl ValueError)"
| "py_int x = Inl TypeError"

section \<open>The regular expressions of the router\<close>

text \<open>\<open>re.search(lit + r"\s+(\d+)", s)\<close> for a literal \<open>lit\<close>, returning group 1 of the
  leftmost match. Both repetitions are greedy and the two classes are disjoint, so at a
  position the match is the literal, the whole run of whitespace after it (at least one),
  and the whole run of digits after that (at least one).\<close>

definition match_number_at :: "string \<Rightarrow> string \<Rightarrow> string option" where
  "match_number_at lit s =
     (if starts_with lit s
      then (let r = drop (length lit) s;
                ds = takeWhile is_digit (dropWhile is_space r)
            in if takeWhile is_space r \<noteq> [] \<and> ds \<noteq> [] then Some ds else None)
      else None)"

fun search_number :: "string \<Rightarrow> string \<Rightarrow> string option" where
  "search_number lit [] = match_number_at lit []"
| "search_number lit (c # cs) =
     (case match_number_at lit (c # cs) of
        Some ds \<Rightarrow> Some ds
      | None \<Rightarrow> search_number lit cs)"

text \<open>\<open>re.search(lit + r"([^\s]+)", s)\<close>, group 1 of the leftmost match.\<close>

definition match_token_at :: "string \<Rightarrow> string \<Rightarrow> string option" where
  "match_token_at lit s =
     (if starts_with lit s
      then (let tok = takeWhile (\<lambda>c. \<not> is_space c) (drop (length lit) s)
            in if tok \<noteq> [] then Some tok else None)
      else None)"

fun search_token :: "string \<Rightarrow> string \<Rightarrow> string option" where
  "search_token lit [] = match_token_at lit []"
| "search_token lit (c # cs) =
     (case match_token_at lit (c # cs) of
        Some tok \<Rightarrow> Some tok
      | None \<Rightarrow> search_token lit cs)"

section \<open>Outbound calls and the execution state\<close>

text \<open>
  The two collaborators are reached over HTTP. What \<open>requests.post\<close> gives back is either
  an exception (connection refused, timeout) or a response with a status code and a body,
  which \<open>r.json()\<close> decodes or not. The collaborators are external and stateful, so the
  network is a parameter: a function from the target, the tool, the arguments and the
  state of the outside world to the reply and the new state of the world.
\<close>

datatype agent = DataAgent | SupportAgent

datatype http_reply =
    Unreachable
  | Response nat "json option"

type_synonym 'w network = "agent \<Rightarrow> string \<Rightarrow> json \<Rightarrow> 'w \<Rightarrow> http_reply \<times> 'w"

text \<open>One outbound call as it happened: where it went, what was sent, what came back, and
  the trace lines that the local list \<open>logs\<close> held when the call was made.\<close>

record outbound =
  target :: agent
  sent_tool :: string
  sent_arguments :: json
  reply :: http_reply
  logs_before :: "string list"

text \<open>The state threaded through one request: the outside world, the outbound calls made
  so far in order, and the local list \<open>logs\<close>.\<close>

record 'w exec =
  world :: 'w
  calls :: "outbound list"
  logs :: "string list"

definition start :: "'w \<Rightarrow> 'w exec" where
  "start w = \<lparr>world = w, calls = [], logs = []\<rparr>"

text \<open>A step either raises (\<open>Inl\<close>) or returns (\<open>Inr\<close>), and leaves a state.\<close>

type_synonym ('w, 'a) step = "'w exec \<Rightarrow> (error + 'a) \<times> 'w exec"

definition ret :: "'a \<Rightarrow> ('w, 'a) step" where
  "ret x s = (Inr x, s)"

definition lift_e :: "error + 'a \<Rightarrow> ('w, 'a) step" where
  "lift_e r s = (r, s)"

definition and_then :: "('w, 'a) step \<Rightarrow> ('a \<Rightarrow> ('w, 'b) step) \<Rightarrow> ('w, 'b) step" where
  "and_then m f s = (case m s of (Inl e, s') \<Rightarrow> (Inl e, s') | (Inr x, s') \<Rightarrow> f x s')"

definition append_log :: "string \<Rightarrow> ('w, unit) step" where
  "append_log line s = (Inr (), s\<lparr>logs := logs s @ [line]\<rparr>)"

definition read_logs :: "('w, string list) step" where
  "read_logs s = (Inr (logs s), s)"

text \<open>The part of \<open>data_call\<close> and \<open>support_call\<close> after the request was posted:
  \<open>raise_for_status\<close> (status 400 to 599), \<open>r.json()\<close>, the test \<open>"error" in js\<close> and
  \<open>js.get("result", js)\<close>. A body that is not a dictionary raises in one of the last two.\<close>

definition decode_reply :: "http_reply \<Rightarrow> error + json" where
  "decode_reply r =
     (case r of
        Unreachable \<Rightarrow> Inl ConnectionError
      | Response status body \<Rightarrow>
          if 400 \<le> status \<and> status < 600 then Inl (HTTPError status)
          else (case body of
                  None \<Rightarrow> Inl JSONDecodeError
                | Some js \<Rightarrow>
                    (case js of
                       JObj d \<Rightarrow>
                         (case map_of d ''error'' of
                            Some e \<Rightarrow> Inl (RuntimeError e)
                          | None \<Rightarrow> Inr (dict_get d ''result'' js))
                     | JArr xs \<Rightarrow> if JStr ''error'' \<in> set xs then Inl TypeError else Inl AttributeError
                     | JStr t \<Rightarrow> if substr_in ''error'' t then Inl TypeError else Inl AttributeError
                     | JNull \<Rightarrow> Inl TypeError
                     | JBool b \<Rightarrow> Inl TypeError
                     | JInt i \<Rightarrow> Inl TypeError)))"

definition agent_call :: "'w network \<Rightarrow> agent \<Rightarrow> string \<Rightarrow> json \<Rightarrow> ('w, json) step" where
  "agent_call net ag tname args s =
     (let (r, w') = net ag tname args (world s)
      in (decode_reply r,
          s\<lparr>world := w',
            calls := calls s @ [\<lparr>target = ag, sent_tool = tname, sent_arguments = args,
                                 reply = r, logs_before = logs s\<rparr>]\<rparr>))"

definition data_call :: "'w network \<Rightarrow> string \<Rightarrow> json \<Rightarrow> ('w, json) step" where
  "data_call net tname args = agent_call net DataAgent tname args"

definition support_call :: "'w network \<Rightarrow> string \<Rightarrow> json \<Rightarrow> ('w, json) step" where
  "support_call net tname args = agent_call net SupportAgent tname args"

section \<open>The router\<close>

definition build_response :: "(string \<times> json) list \<Rightarrow> json" where
  "build_response payload = JObj (dict_set payload ''result'' (JObj payload))"

definition make_payload :: "string \<Rightarrow> string \<Rightarrow> string list \<Rightarrow> json \<Rightarrow> (string \<times> json) list" where
  "make_payload scenario route lg final =
     [(''scenario'', JStr scenario), (''route'', JStr route),
      (''logs'', JArr (map JStr lg)), (''final'', final)]"

text \<open>The customer id of a branch: \<open>int\<close> of group 1 of the branch's pattern on the
  lowercased query, else \<open>int(args.get("customer_id", default))\<close>.\<close>

definition extract_id :: "string \<Rightarrow> int \<Rightarrow> (string \<times> json) list \<Rightarrow> string \<Rightarrow> error + int" where
  "extract_id lit dflt args query =
     (case search_number lit (lower query) of
        Some ds \<Rightarrow> int_of_digit_run ds
      | None \<Rightarrow> py_int (dict_get args ''customer_id'' (JInt dflt)))"

subsection \<open>DATA\<close>

definition data_branch :: "'w network \<Rightarrow> (string \<times> json) list \<Rightarrow> string \<Rightarrow> ('w, json) step" where
  "data_branch net args query =
     and_then (append_log ''Router classified as DATA'') (\<lambda>_.
     and_then (lift_e (extract_id ''id'' 1 args query)) (\<lambda>cid.
     and_then (data_call net ''get_customer'' (JObj [(''customer_id'', JInt cid)])) (\<lambda>result.
     and_then (append_log ''Data Agent used MCP tools'') (\<lambda>_.
     and_then read_logs (\<lambda>lg.
     ret (build_response (make_payload ''data'' ''router -> data'' lg
            (JObj [(''type'', JStr ''get_customer''), (''customer_id'', JInt cid),
                   (''customer'', result)]))))))))"

subsection \<open>SUPPORT and the fallback\<close>

definition support_branch :: "'w network \<Rightarrow> string \<Rightarrow> ('w, json) step" where
  "support_branch net query =
     and_then (append_log ''Router classified as SUPPORT'') (\<lambda>_.
     and_then (support_call net ''simple_support_reply'' (JObj [(''text'', JStr query)])) (\<lambda>r.
     and_then (lift_e (py_get r ''text'' (JStr []))) (\<lambda>text.
     and_then read_logs (\<lambda>lg.
     ret (build_response (make_payload ''support'' ''router -> support'' lg text))))))"

definition fallback_branch :: "'w network \<Rightarrow> string \<Rightarrow> ('w, json) step" where
  "fallback_branch net query =
     and_then (support_call net ''simple_support_reply'' (JObj [(''text'', JStr query)])) (\<lambda>r.
     and_then (lift_e (py_get r ''text'' (JStr []))) (\<lambda>text.
     and_then read_logs (\<lambda>lg.
     ret (build_response (make_payload ''support'' ''router -> support'' lg text)))))"

subsection \<open>MULTI_OPEN\<close>

definition is_open :: "json \<Rightarrow> error + bool" where
  "is_open t = bind_e (py_get t ''status'' (JStr [])) (\<lambda>st. Inr (lower (py_str st) = ''open''))"

definition issues_of :: "json list \<Rightarrow> error + json list" where
  "issues_of open_tix =
     bind_e (traverse (\<lambda>t. py_get t ''issue'' JNull) open_tix) (\<lambda>xs. Inr (filter truthy xs))"

definition customer_entry :: "json \<Rightarrow> json list \<Rightarrow> error + json" where
  "customer_entry cust open_tix =
     bind_e (py_get cust ''name'' JNull) (\<lambda>name.
     bind_e (py_get cust ''email'' JNull) (\<lambda>email.
     bind_e (py_get cust ''phone'' JNull) (\<lambda>phone.
     bind_e (issues_of open_tix) (\<lambda>issues.
     Inr (JObj [(''name'', name), (''email'', email), (''phone'', phone),
                (''open_tickets'', JInt (int (length open_tix))),
                (''issues'', JArr issues)])))))"

text \<open>The loop over the customers; \<open>result\<close> is the list built so far.\<close>

fun open_loop :: "'w network \<Rightarrow> json list \<Rightarrow> json list \<Rightarrow> ('w, json list) step" where
  "open_loop net [] result = ret result"
| "open_loop net (cust # rest) result =
     and_then (lift_e (py_index cust ''id'')) (\<lambda>cid.
     and_then (data_call net ''get_customer_history'' (JObj [(''customer_id'', cid)])) (\<lambda>hist.
     and_then (lift_e (bind_e (py_get hist ''tickets'' (JArr [])) py_iter)) (\<lambda>tickets.
     and_then (lift_e (filter_e is_open tickets)) (\<lambda>open_tix.
     if open_tix \<noteq> []
     then and_then (lift_e (customer_entry cust open_tix)) (\<lambda>entry.
          open_loop net rest (result @ [entry]))
     else open_loop net rest result))))"

definition multi_open_branch :: "'w network \<Rightarrow> ('w, json) step" where
  "multi_open_branch net =
     and_then (append_log ''Router classified as MULTI'') (\<lambda>_.
     and_then (data_call net ''list_customers''
                 (JObj [(''status'', JStr ''active''), (''limit'', JInt 200)])) (\<lambda>r.
     and_then (lift_e (bind_e (py_get r ''customers'' (JArr [])) py_iter)) (\<lambda>customers.
     and_then (open_loop net customers []) (\<lambda>result.
     and_then (append_log ''Data Agent invoked via MCP'') (\<lambda>_.
     and_then (append_log ''Support Agent generated coordinated response'') (\<lambda>_.
     and_then read_logs (\<lambda>lg.
     ret (build_response (make_payload ''multi-intent'' ''router -> data -> support'' lg
            (JArr result))))))))))"

subsection \<open>MULTI_COORD\<close>

definition coord_lines :: "json \<Rightarrow> int \<Rightarrow> error + string list" where
  "coord_lines customer_profile cid =
     (if truthy customer_profile
      then bind_e (py_get customer_profile ''name'' JNull) (\<lambda>name.
           bind_e (py_get customer_profile ''status'' (JStr ''unknown'')) (\<lambda>status.
           Inr [''Hello '' @ py_str name @ '' (Customer ID '' @ show_int cid @ ''). ''
                  @ ''Your account is currently marked as '' @ py_str status @ ''.'',
                ''To upgrade, open the account dashboard, choose **Plan & Billing**, ''
                  @ ''and select the tier you want. Confirm the payment method and submit the upgrade.'']))
      else if cid \<noteq> 0
      then Inr [''I couldn't find customer '' @ show_int cid
                  @ '' in the records, but here is how you can upgrade:'']
      else Inr [''Here's how to upgrade your account:''])"

text \<open>\<open>"\n\n".join(lines).strip()\<close> after the reply text was appended when truthy; a
  truthy reply text that is not a string makes \<open>join\<close> raise.\<close>

definition coord_final :: "string list \<Rightarrow> json \<Rightarrow> error + json" where
  "coord_final lines text =
     (if truthy text
      then (case text of
              JStr t \<Rightarrow> Inr (JStr (strip (join [CHR 0x0A, CHR 0x0A] (lines @ [t]))))
            | _ \<Rightarrow> Inl TypeError)
      else Inr (JStr (strip (join [CHR 0x0A, CHR 0x0A] lines))))"

definition multi_coord_branch :: "'w network \<Rightarrow> (string \<times> json) list \<Rightarrow> string \<Rightarrow> ('w, json) step" where
  "multi_coord_branch net args query =
     and_then (append_log ''Router classified as MULTI'') (\<lambda>_.
     and_then (lift_e (extract_id ''customer'' 0 args query)) (\<lambda>cid.
     and_then (if cid \<noteq> 0
               then and_then (data_call net ''get_customer'' (JObj [(''customer_id'', JInt cid)])) (\<lambda>fetched.
                    and_then (lift_e (py_get fetched ''customer'' JNull)) (\<lambda>profile.
                    and_then (append_log ''Data Agent invoked via MCP'') (\<lambda>_.
                    ret profile)))
               else ret JNull) (\<lambda>customer_profile.
     and_then (support_call net ''simple_support_reply'' (JObj [(''text'', JStr query)])) (\<lambda>r.
     and_then (lift_e (py_get r ''text'' (JStr []))) (\<lambda>text.
     and_then (append_log ''Support Agent generated coordinated response'') (\<lambda>_.
     and_then (lift_e (coord_lines customer_profile cid)) (\<lambda>lines.
     and_then (lift_e (coord_final lines text)) (\<lambda>final.
     and_then read_logs (\<lambda>lg.
     ret (build_response (make_payload ''multi-intent'' ''router -> data -> support'' lg
            final)))))))))))"

subsection \<open>MULTI_UPDATE\<close>

definition ticket_block :: "nat \<Rightarrow> json \<Rightarrow> error + string" where
  "ticket_block idx t =
     bind_e (py_get t ''id'' JNull) (\<lambda>tid.
     bind_e (py_get t ''issue'' JNull) (\<lambda>issue.
     bind_e (py_get t ''status'' JNull) (\<lambda>status.
     bind_e (py_get t ''priority'' JNull) (\<lambda>priority.
     bind_e (py_get t ''created_at'' JNull) (\<lambda>created.
     Inr (show_nat idx @ ''. **Ticket ID:** '' @ py_str tid @ [CHR '' '', CHR 0x0A]
          @ ''   - **Issue:** '' @ py_str issue @ [CHR '' '', CHR 0x0A]
          @ ''   - **Status:** '' @ py_str status @ [CHR '' '', CHR 0x0A]
          @ ''   - **Priority:** '' @ py_str priority @ [CHR '' '', CHR 0x0A]
          @ ''   - **Created At:** '' @ py_str created @ [CHR 0x0A]))))))"

text \<open>\<open>for idx, t in enumerate(hist, 1)\<close>, the blocks in ticket order.\<close>

fun ticket_blocks :: "nat \<Rightarrow> json list \<Rightarrow> error + string list" where
  "ticket_blocks idx [] = Inr []"
| "ticket_blocks idx (t # ts) =
     bind_e (ticket_block idx t) (\<lambda>b.
     bind_e (ticket_blocks (Suc idx) ts) (\<lambda>bs. Inr (b # bs)))"

definition update_header :: "json \<Rightarrow> string" where
  "update_header new_email =
     ''Your email has been successfully updated to '' @ py_str new_email @ [CHR ''.'', CHR 0x0A]"

definition extract_email :: "(string \<times> json) list \<Rightarrow> string \<Rightarrow> json" where
  "extract_email args query =
     (case search_token ''update my email to '' (lower query) of
        Some tok \<Rightarrow> JStr tok
      | None \<Rightarrow> dict_get args ''new_email'' (JStr ''new@email.com''))"

definition multi_update_branch :: "'w network \<Rightarrow> (string \<times> json) list \<Rightarrow> string \<Rightarrow> ('w, json) step" where
  "multi_update_branch net args query =
     and_then (append_log ''Router classified as MULTI'') (\<lambda>_.
     and_then (lift_e (extract_id ''customer'' 1 args query)) (\<lambda>customer_id.
     and_then (ret (extract_email args query)) (\<lambda>new_email.
     and_then (data_call net ''update_customer''
                 (JObj [(''customer_id'', JInt customer_id),
                        (''data'', JObj [(''email'', new_email)])])) (\<lambda>_.
     and_then (append_log ''Data Agent invoked via MCP'') (\<lambda>_.
     and_then (data_call net ''get_customer_history'' (JObj [(''customer_id'', JInt customer_id)])) (\<lambda>r.
     and_then (lift_e (py_get r ''tickets'' (JArr []))) (\<lambda>hist.
     and_then (lift_e (bind_e (py_iter hist) (ticket_blocks 1))) (\<lambda>blocks.
     and_then (append_log ''Support Agent generated coordinated response'') (\<lambda>_.
     and_then read_logs (\<lambda>lg.
     ret (build_response (make_payload ''multi-intent'' ''router -> data -> support'' lg
            (JStr (join [CHR 0x0A]
               ([update_header new_email, ''Here is your ticket history:'' @ [CHR 0x0A]]
                @ blocks)))))))))))))))"

subsection \<open>The entry points\<close>

record a2a_call_request =
  tool :: string
  arguments :: "(string \<times> json) list option"

record router_message_request =
  role :: string
  content :: string

definition dispatch ::
  "'w network \<Rightarrow> string \<Rightarrow> (string \<times> json) list \<Rightarrow> string \<Rightarrow> ('w, json) step" where
  "dispatch net route args query =
     (if route = ''DATA'' then data_branch net args query
      else if route = ''SUPPORT'' then support_branch net query
      else if route = ''MULTI_OPEN'' then multi_open_branch net
      else if route = ''MULTI_COORD'' then multi_coord_branch net args query
      else if route = ''MULTI_UPDATE'' then multi_update_branch net args query
      else fallback_branch net query)"

definition router_call :: "'w network \<Rightarrow> a2a_call_request \<Rightarrow> ('w, json) step" where
  "router_call net req =
     (let args = (case arguments req of None \<Rightarrow> [] | Some d \<Rightarrow> d)
      in if tool req \<notin> {''route_task'', ''route''}
         then ret (JObj [(''error'', JStr (''Unknown tool: '' @ tool req))])
         else (let query = py_str (dict_get args ''text'' (JStr []))
               in (\<lambda>s. dispatch net (classify_intent query) args query (s\<lparr>logs := []\<rparr>))))"

definition router_message :: "'w network \<Rightarrow> router_message_request \<Rightarrow> ('w, json) step" where
  "router_message net req =
     router_call net \<lparr>tool = ''route_task'', arguments = Some [(''text'', JStr (content req))]\<rparr>"

section \<open>Notions used to state the properties\<close>

text \<open>What was sent in the outbound calls, in order.\<close>

definition requests_made :: "'w exec \<Rightarrow> (agent \<times> string \<times> json) list" where
  "requests_made s = map (\<lambda>c. (target c, sent_tool c, sent_arguments c)) (calls s)"

text \<open>A call failed when the wrapper around it raised.\<close>

definition failed :: "outbound \<Rightarrow> bool" where
  "failed c = isl (decode_reply (reply c))"


text \<open>A step is orderly when the calls it makes are appended to the calls made before,
  none but the last of them failed, and when the last one failed the step raised that
  call's error and left the trace as it was when the call was made.\<close>

definition orderly :: "('w, 'a) step \<Rightarrow> bool" where
  "orderly m =
     (\<forall>s. \<exists>new. calls (snd (m s)) = calls s @ new
        \<and> (\<forall>c \<in> set (butlast new). \<not> failed c)
        \<and> (new \<noteq> [] \<and> failed (last new) \<longrightarrow>
             (\<exists>e. fst (m s) = Inl e \<and> decode_reply (reply (last new)) = Inl e)
             \<and> logs (snd (m s)) = logs_before (last new)))"

text \<open>The value of every successful run of a step satisfies \<open>P\<close>.\<close>

definition returns :: "('a \<Rightarrow> bool) \<Rightarrow> ('w, 'a) step \<Rightarrow> bool" where
  "returns P m = (\<forall>s x s'. m s = (Inr x, s') \<longrightarrow> P x)"

definition is_envelope :: "json \<Rightarrow> bool" where
  "is_envelope env = (\<exists>sc rt lg fn. env = build_response (make_payload sc rt lg fn))"

section \<open>Sample collaborators\<close>

text \<open>A data agent that knows customer 5 and answers every other lookup with no customer.\<close>

definition ana :: json where
  "ana = JObj [(''id'', JInt 5), (''name'', JStr ''Ana'')]"

definition ana_net :: "unit network" where
  "ana_net ag tname args w =
     (if ag = DataAgent \<and> tname = ''get_customer'' \<and> args = JObj [(''customer_id'', JInt 5)]
      then (Response 200 (Some (JObj [(''customer'', ana)])), w)
      else (Response 200 (Some (JObj [(''customer'', JNull)])), w))"

definition ana_request :: a2a_call_request where
  "ana_request =
     \<lparr>tool = ''route'',
      arguments = Some [(''text'', JStr ''Get customer information for ID 5'')]\<rparr>"

text \<open>A data agent whose update succeeds and whose history lookup answers with status 500.\<close>

definition flaky_net :: "unit network" where
  "flaky_net ag tname args w =
     (if tname = ''update_customer''
      then (Response 200 (Some (JObj [(''updated'', JBool True)])), w)
      else (Response 500 None, w))"

definition update_request :: a2a_call_request where
  "update_request =
     \<lparr>tool = ''route_task'',
      arguments = Some [(''text'', JStr ''Update my email to Ann@X.org, ticket history'')]\<rparr>"

section \<open>The statements of the specification, in its words\<close>

text \<open>The field \<open>final\<close> of what a run returned.\<close>

definition final_of :: "error + json \<Rightarrow> error + json" where
  "final_of r = bind_e r (\<lambda>env. py_index env ''final'')"

text \<open>The fallback chain for the customer id: the digits matched in the text, else
  \<open>arguments.customer_id\<close> when the key is present, else the default of the route. The
  digits and the argument are converted with \<open>int\<close>, which can raise; the default is used
  as it is.\<close>

definition id_chain :: "string option \<Rightarrow> json option \<Rightarrow> int \<Rightarrow> error + int" where
  "id_chain matched arg dflt =
     (case matched of
        Some ds \<Rightarrow> int_of_digit_run ds
      | None \<Rightarrow> (case arg of Some v \<Rightarrow> py_int v | None \<Rightarrow> Inr dflt))"



text \<open>The trace of a completed run: the stage lines of its route. For MULTI_COORD the
  line of the data stage is there only when the data agent was consulted.\<close>

definition stage_lines :: "string \<Rightarrow> bool \<Rightarrow> string list" where
  "stage_lines route consulted =
     (if route = ''DATA'' then [''Router classified as DATA'', ''Data Agent used MCP tools'']
      else if route = ''SUPPORT'' then [''Router classified as SUPPORT'']
      else if route = ''MULTI_COORD'' \<and> \<not> consulted
        then [''Router classified as MULTI'', ''Support Agent generated coordinated response'']
      else [''Router classified as MULTI'', ''Data Agent invoked via MCP'',
            ''Support Agent generated coordinated response''])"

text \<open>A field of a customer or a ticket, null when the field is absent.\<close>

definition field :: "json \<Rightarrow> string \<Rightarrow> json" where
  "field x k = (case x of JObj d \<Rightarrow> dict_get d k JNull | _ \<Rightarrow> JNull)"

text \<open>A ticket is open when its status is a string equal to \<open>open\<close> up to letter case.\<close>

definition open_ticket :: "json \<Rightarrow> bool" where
  "open_ticket t = (case field t ''status'' of JStr s \<Rightarrow> lower s = ''open'' | _ \<Rightarrow> False)"

definition open_tickets_of :: "json list \<Rightarrow> json list" where
  "open_tickets_of ts = filter open_ticket ts"

text \<open>The issues listed for a customer: as the claim words them, the issue fields that are
  not null; and as the router lists them, the issue fields that are truthy.\<close>

definition non_null :: "json \<Rightarrow> bool" where
  "non_null v = (v \<noteq> JNull)"

definition issues_claimed :: "json list \<Rightarrow> json list" where
  "issues_claimed ts = filter non_null (map (\<lambda>t. field t ''issue'') (open_tickets_of ts))"

definition issues_listed :: "json list \<Rightarrow> json list" where
  "issues_listed ts = filter truthy (map (\<lambda>t. field t ''issue'') (open_tickets_of ts))"

definition report_entry :: "json \<Rightarrow> json list \<Rightarrow> json" where
  "report_entry cust ts =
     JObj [(''name'', field cust ''name''), (''email'', field cust ''email''),
           (''phone'', field cust ''phone''),
           (''open_tickets'', JInt (int (length (open_tickets_of ts)))),
           (''issues'', JArr (issues_listed ts))]"

text \<open>The report over the customers paired with their ticket histories: customers without
  an open ticket dropped, the others in the order given.\<close>

definition open_report :: "(json \<times> json list) list \<Rightarrow> json list" where
  "open_report pairs =
     map (\<lambda>p. report_entry (fst p) (snd p)) (filter (\<lambda>p. open_tickets_of (snd p) \<noteq> []) pairs)"

text \<open>The customers in the result of \<open>list_customers\<close> and the tickets in the result of
  \<open>get_customer_history\<close>, as the router iterates over them.\<close>

definition listed :: "json \<Rightarrow> json list" where
  "listed r = (case bind_e (py_get r ''customers'' (JArr [])) py_iter of
                 Inr cs \<Rightarrow> cs | Inl e \<Rightarrow> [])"

definition tickets_of :: "json \<Rightarrow> json list" where
  "tickets_of h = (case bind_e (py_get h ''tickets'' (JArr [])) py_iter of
                     Inr ts \<Rightarrow> ts | Inl e \<Rightarrow> [])"

section \<open>More sample collaborators\<close>

text \<open>A data agent with three active customers: the first has two open tickets, one of
  them with an empty issue text, the second a closed ticket, the third no ticket.\<close>

definition ann :: json where
  "ann = JObj [(''id'', JInt 1), (''name'', JStr ''Ann''), (''email'', JStr ''ann@x.org''),
               (''phone'', JStr ''555-0101'')]"

definition ann_tickets :: "json list" where
  "ann_tickets =
     [JObj [(''id'', JInt 11), (''issue'', JStr ''Login fails''), (''status'', JStr ''open'')],
      JObj [(''id'', JInt 12), (''issue'', JStr []), (''status'', JStr ''OPEN'')]]"

definition tickets_net :: "unit network" where
  "tickets_net ag tname args w =
     (if tname = ''list_customers''
      then (Response 200 (Some (JObj [(''customers'',
              JArr [ann, JObj [(''id'', JInt 2)], JObj [(''id'', JInt 3)]])])), w)
      else if args = JObj [(''customer_id'', JInt 1)]
      then (Response 200 (Some (JObj [(''tickets'', JArr ann_tickets)])), w)
      else if args = JObj [(''customer_id'', JInt 2)]
      then (Response 200 (Some (JObj [(''tickets'',
              JArr [JObj [(''id'', JInt 21), (''issue'', JStr ''Refund''),
                          (''status'', JStr ''closed'')]])])), w)
      else (Response 200 (Some (JObj [(''tickets'', JArr [])])), w))"

definition open_request :: a2a_call_request where
  "open_request =
     \<lparr>tool = ''route'',
      arguments = Some [(''text'', JStr ''active customers, open tickets'')]\<rparr>"

definition customer7_request :: a2a_call_request where
  "customer7_request =
     \<lparr>tool = ''route'', arguments = Some [(''text'', JStr ''customer 7'')]\<rparr>"

definition upgrade_request :: a2a_call_request where
  "upgrade_request =
     \<lparr>tool = ''route'', arguments = Some [(''text'', JStr ''customer 7 upgrade'')]\<rparr>"

definition refund_request :: a2a_call_request where
  "refund_request = \<lparr>tool = ''route'', arguments = Some [(''text'', JStr ''refund'')]\<rparr>"

text \<open>A request that comes with a null \<open>customer_id\<close>.\<close>

definition null_id_request :: a2a_call_request where
  "null_id_request =
     \<lparr>tool = ''route'',
      arguments = Some [(''text'', JStr ''customer''), (''customer_id'', JNull)]\<rparr>"


section \<open>Properties of the text primitives\<close>

lemma starts_with_iff: "starts_with p t \<longleftrightarrow> (\<exists>suf. t = p @ suf)"
  by (induction p t rule: starts_with.induct) auto

lemma substr_in_iff: "substr_in p t \<longleftrightarrow> (\<exists>pre suf. t = pre @ p @ suf)"
proof (induction t)
  case Nil
  show ?case by auto
next
  case (Cons c cs)
  show ?case
  proof
    assume "substr_in p (c # cs)"
    then consider "starts_with p (c # cs)" | "substr_in p cs" by auto
    then show "\<exists>pre suf. c # cs = pre @ p @ suf"
    proof cases
      case 1
      then obtain suf where "c # cs = p @ suf" by (auto simp: starts_with_iff)
      then have "c # cs = [] @ p @ suf" by simp
      then show ?thesis by blast
    next
      case 2
      then obtain pre suf where "cs = pre @ p @ suf" using Cons.IH by auto
      then have "c # cs = (c # pre) @ p @ suf" by simp
      then show ?thesis by blast
    qed
  next
    assume "\<exists>pre suf. c # cs = pre @ p @ suf"
    then obtain pre suf where eq: "c # cs = pre @ p @ suf" by auto
    show "substr_in p (c # cs)"
    proof (cases pre)
      case Nil
      with eq have "starts_with p (c # cs)" by (auto simp: starts_with_iff)
      then show ?thesis by simp
    next
      case (Cons a pre')
      with eq have "cs = pre' @ p @ suf" by simp
      then have "substr_in p cs" using Cons.IH by auto
      then show ?thesis by simp
    qed
  qed
qed

lemma lower_append: "lower (a @ b) = lower a @ lower b"
  by (simp add: lower_def)

lemma length_lower: "length (lower t) = length t"
  by (simp add: lower_def)

lemma lower_take: "lower (take n t) = take n (lower t)"
  by (simp add: lower_def take_map)

lemma lower_drop: "lower (drop n t) = drop n (lower t)"
  by (simp add: lower_def drop_map)

lemma occurs_ci_iff: "occurs_ci phrase text \<longleftrightarrow> substr_in (lower phrase) (lower text)"
proof
  assume "occurs_ci phrase text"
  then obtain pre w suf where "text = pre @ w @ suf" "lower w = lower phrase"
    by (auto simp: occurs_ci_def)
  then have "lower text = lower pre @ lower phrase @ lower suf"
    by (simp add: lower_append)
  then show "substr_in (lower phrase) (lower text)"
    unfolding substr_in_iff by blast
next
  assume "substr_in (lower phrase) (lower text)"
  then obtain pre suf where eq: "lower text = pre @ lower phrase @ suf"
    unfolding substr_in_iff by blast
  let ?n = "length pre" and ?k = "length phrase"
  have split: "text = take ?n text @ take ?k (drop ?n text) @ drop ?k (drop ?n text)"
    by (metis append_take_drop_id)
  have "lower (take ?k (drop ?n text)) = take ?k (drop ?n (lower text))"
    by (simp add: lower_take lower_drop)
  also have "\<dots> = lower phrase"
    by (simp add: eq length_lower)
  finally have "lower (take ?k (drop ?n text)) = lower phrase" .
  with split show "occurs_ci phrase text"
    unfolding occurs_ci_def by blast
qed

lemma lower_char_fixed: "c \<notin> set upper_chars \<Longrightarrow> lower_char c = c"
proof -
  assume "c \<notin> set upper_chars"
  then have "map_of (zip upper_chars lower_chars) c = None"
    by (simp add: map_of_eq_None_iff upper_chars_def lower_chars_def)
  then show ?thesis by (simp add: lower_char_def)
qed

lemma phrase_lower:
  "lower ''active customers'' = ''active customers''"
  "lower ''open ticket'' = ''open ticket''"
  "lower ''open tickets'' = ''open tickets''"
  "lower ''update my email'' = ''update my email''"
  "lower ''ticket history'' = ''ticket history''"
  "lower ''upgrade'' = ''upgrade''"
  "lower ''upgrading my account'' = ''upgrading my account''"
  "lower ''charged twice'' = ''charged twice''"
  "lower ''refund'' = ''refund''"
  "lower ''cancel'' = ''cancel''"
  "lower ''billing'' = ''billing''"
  "lower ''get customer information'' = ''get customer information''"
  "lower ''get customer info'' = ''get customer info''"
  "lower ''customer id'' = ''customer id''"
  by code_simp+

lemma classify_intent_spec: "classify_intent text = classify_spec text"
  by (simp add: classify_intent_def classify_spec_def intent_rules_def Let_def
      occurs_ci_iff phrase_lower)

lemma rule_matches_simps:
  "rule_matches ''MULTI_OPEN'' x \<longleftrightarrow>
     occurs_ci ''active customers'' x \<and> (occurs_ci ''open ticket'' x \<or> occurs_ci ''open tickets'' x)"
  "rule_matches ''SUPPORT'' x \<longleftrightarrow>
     occurs_ci ''charged twice'' x \<or> occurs_ci ''refund'' x
       \<or> occurs_ci ''cancel'' x \<or> occurs_ci ''billing'' x"
  by (auto simp: rule_matches_def intent_rules_def)

lemma no_rule_matches:
  "(\<forall>label. \<not> rule_matches label x) \<Longrightarrow> find (\<lambda>r. snd r x) intent_rules = None"
  by (auto simp: rule_matches_def find_None_iff)

section \<open>Properties of steps\<close>

lemma and_then_Inr:
  "and_then m f s = (Inr y, s') \<longleftrightarrow> (\<exists>x s1. m s = (Inr x, s1) \<and> f x s1 = (Inr y, s'))"
  by (auto simp: and_then_def split: prod.splits sum.splits)

lemma ret_Inr: "ret x s = (Inr y, s') \<longleftrightarrow> y = x \<and> s' = s"
  by (auto simp: ret_def)

lemma lift_e_Inr: "lift_e r s = (Inr y, s') \<longleftrightarrow> r = Inr y \<and> s' = s"
  by (auto simp: lift_e_def)

lemma append_log_Inr: "append_log l s = (Inr y, s') \<longleftrightarrow> s' = s\<lparr>logs := logs s @ [l]\<rparr>"
  by (auto simp: append_log_def)

lemma read_logs_Inr: "read_logs s = (Inr y, s') \<longleftrightarrow> y = logs s \<and> s' = s"
  by (auto simp: read_logs_def)

lemma agent_call_Inr:
  "agent_call net ag t a s = (Inr y, s') \<longleftrightarrow>
     decode_reply (fst (net ag t a (world s))) = Inr y
     \<and> s' = s\<lparr>world := snd (net ag t a (world s)),
              calls := calls s @ [\<lparr>target = ag, sent_tool = t, sent_arguments = a,
                                   reply = fst (net ag t a (world s)), logs_before = logs s\<rparr>]\<rparr>"
  by (auto simp: agent_call_def split: prod.splits)

lemmas step_Inr = and_then_Inr ret_Inr lift_e_Inr append_log_Inr read_logs_Inr agent_call_Inr

lemma bind_e_Inr: "bind_e m f = Inr y \<longleftrightarrow> (\<exists>x. m = Inr x \<and> f x = Inr y)"
  by (auto simp: bind_e_def split: sum.splits)

subsection \<open>The shape of what a branch returns\<close>

lemma returns_ret: "P x \<Longrightarrow> returns P (ret x)"
  by (simp add: returns_def ret_def)

lemma returns_and_then: "(\<And>x. returns P (f x)) \<Longrightarrow> returns P (and_then m f)"
  by (auto simp: returns_def and_then_def split: prod.splits sum.splits)

lemma envelope_built: "is_envelope (build_response (make_payload sc rt lg fn))"
  by (auto simp: is_envelope_def)

lemma build_response_shape:
  "build_response (make_payload sc rt lg fn) =
     JObj [(''scenario'', JStr sc), (''route'', JStr rt),
           (''logs'', JArr (map JStr lg)), (''final'', fn),
           (''result'', JObj [(''scenario'', JStr sc), (''route'', JStr rt),
                              (''logs'', JArr (map JStr lg)), (''final'', fn)])]"
  by (simp add: build_response_def make_payload_def)

lemma data_branch_envelope: "returns is_envelope (data_branch net args query)"
  unfolding data_branch_def by (intro returns_and_then returns_ret envelope_built)

lemma support_branch_envelope: "returns is_envelope (support_branch net query)"
  unfolding support_branch_def by (intro returns_and_then returns_ret envelope_built)

lemma fallback_branch_envelope: "returns is_envelope (fallback_branch net query)"
  unfolding fallback_branch_def by (intro returns_and_then returns_ret envelope_built)

lemma multi_open_branch_envelope: "returns is_envelope (multi_open_branch net)"
  unfolding multi_open_branch_def by (intro returns_and_then returns_ret envelope_built)

lemma multi_coord_branch_envelope: "returns is_envelope (multi_coord_branch net args query)"
  unfolding multi_coord_branch_def by (intro returns_and_then returns_ret envelope_built)

lemma multi_update_branch_envelope: "returns is_envelope (multi_update_branch net args query)"
  unfolding multi_update_branch_def by (intro returns_and_then returns_ret envelope_built)

lemma dispatch_envelope: "returns is_envelope (dispatch net route args query)"
  unfolding dispatch_def
  by (simp add: data_branch_envelope support_branch_envelope fallback_branch_envelope
      multi_open_branch_envelope multi_coord_branch_envelope multi_update_branch_envelope)

subsection \<open>Calls are made in order and a failing call is the last\<close>

lemma orderlyI:
  assumes "\<And>s. \<exists>new. calls (snd (m s)) = calls s @ new
        \<and> (\<forall>c \<in> set (butlast new). \<not> failed c)
        \<and> (new \<noteq> [] \<and> failed (last new) \<longrightarrow>
             (\<exists>e. fst (m s) = Inl e \<and> decode_reply (reply (last new)) = Inl e)
             \<and> logs (snd (m s)) = logs_before (last new))"
  shows "orderly m"
  using assms unfolding orderly_def by blast

lemma orderly_quiet:
  assumes "\<And>s. calls (snd (m s)) = calls s"
  shows "orderly m"
proof (rule orderlyI)
  fix s
  have "calls (snd (m s)) = calls s @ []" by (simp add: assms)
  then show "\<exists>new. calls (snd (m s)) = calls s @ new
        \<and> (\<forall>c \<in> set (butlast new). \<not> failed c)
        \<and> (new \<noteq> [] \<and> failed (last new) \<longrightarrow>
             (\<exists>e. fst (m s) = Inl e \<and> decode_reply (reply (last new)) = Inl e)
             \<and> logs (snd (m s)) = logs_before (last new))"
    by (intro exI [of _ "[]"]) simp
qed

lemma orderly_ret: "orderly (ret x)"
  by (rule orderly_quiet) (simp add: ret_def)

lemma orderly_lift_e: "orderly (lift_e r)"
  by (rule orderly_quiet) (simp add: lift_e_def)

lemma orderly_append_log: "orderly (append_log l)"
  by (rule orderly_quiet) (simp add: append_log_def)

lemma orderly_read_logs: "orderly read_logs"
  by (rule orderly_quiet) (simp add: read_logs_def)

lemma orderly_agent_call: "orderly (agent_call net ag t a)"
proof (rule orderlyI)
  fix s :: "'a exec"
  obtain r w' where n: "net ag t a (world s) = (r, w')" by (cases "net ag t a (world s)")
  let ?c = "\<lparr>target = ag, sent_tool = t, sent_arguments = a, reply = r, logs_before = logs s\<rparr>"
  have "calls (snd (agent_call net ag t a s)) = calls s @ [?c]"
    by (simp add: agent_call_def n)
  moreover have "fst (agent_call net ag t a s) = decode_reply r"
    by (simp add: agent_call_def n)
  moreover have "logs (snd (agent_call net ag t a s)) = logs s"
    by (simp add: agent_call_def n)
  ultimately show "\<exists>new. calls (snd (agent_call net ag t a s)) = calls s @ new
        \<and> (\<forall>c \<in> set (butlast new). \<not> failed c)
        \<and> (new \<noteq> [] \<and> failed (last new) \<longrightarrow>
             (\<exists>e. fst (agent_call net ag t a s) = Inl e \<and> decode_reply (reply (last new)) = Inl e)
             \<and> logs (snd (agent_call net ag t a s)) = logs_before (last new))"
    by (intro exI [of _ "[?c]"]) (auto simp: failed_def isl_def)
qed

lemma orderly_and_then:
  assumes m: "orderly m" and f: "\<And>x. orderly (f x)"
  shows "orderly (and_then m f)"
proof (rule orderlyI)
  fix s
  obtain r s1 where ms: "m s = (r, s1)" by (cases "m s")
  from m obtain new1 where n1: "calls s1 = calls s @ new1"
      "\<forall>c \<in> set (butlast new1). \<not> failed c"
      "new1 \<noteq> [] \<and> failed (last new1) \<longrightarrow>
         (\<exists>e. r = Inl e \<and> decode_reply (reply (last new1)) = Inl e) \<and> logs s1 = logs_before (last new1)"
    unfolding orderly_def using ms by (metis fst_conv snd_conv)
  show "\<exists>new. calls (snd (and_then m f s)) = calls s @ new
        \<and> (\<forall>c \<in> set (butlast new). \<not> failed c)
        \<and> (new \<noteq> [] \<and> failed (last new) \<longrightarrow>
             (\<exists>e. fst (and_then m f s) = Inl e \<and> decode_reply (reply (last new)) = Inl e)
             \<and> logs (snd (and_then m f s)) = logs_before (last new))"
  proof (cases r)
    case (Inl e)
    then have "and_then m f s = (Inl e, s1)" by (simp add: and_then_def ms)
    with n1 Inl show ?thesis by (intro exI [of _ new1]) auto
  next
    case (Inr x)
    then have eq: "and_then m f s = f x s1" by (simp add: and_then_def ms)
    from Inr n1(3) have good_last: "new1 \<noteq> [] \<Longrightarrow> \<not> failed (last new1)" by auto
    have all_good: "\<forall>c \<in> set new1. \<not> failed c"
    proof
      fix c assume "c \<in> set new1"
      then have "new1 \<noteq> []" by auto
      then have "new1 = butlast new1 @ [last new1]" by simp
      with \<open>c \<in> set new1\<close> have "c \<in> set (butlast new1) \<or> c = last new1"
        by (metis Un_iff insert_iff list.set(2) set_append empty_iff empty_set)
      with n1(2) good_last [OF \<open>new1 \<noteq> []\<close>] show "\<not> failed c" by auto
    qed
    from f [of x] obtain new2 where n2: "calls (snd (f x s1)) = calls s1 @ new2"
      "\<forall>c \<in> set (butlast new2). \<not> failed c"
      "new2 \<noteq> [] \<and> failed (last new2) \<longrightarrow>
         (\<exists>e. fst (f x s1) = Inl e \<and> decode_reply (reply (last new2)) = Inl e)
         \<and> logs (snd (f x s1)) = logs_before (last new2)"
      unfolding orderly_def by blast
    show ?thesis
    proof (cases "new2 = []")
      case True
      with n1 n2 all_good eq show ?thesis
        by (intro exI [of _ new1]) (auto dest: in_set_butlastD)
    next
      case False
      then have "butlast (new1 @ new2) = new1 @ butlast new2" "last (new1 @ new2) = last new2"
        by (simp_all add: butlast_append)
      with n1 n2 all_good eq False show ?thesis
        by (intro exI [of _ "new1 @ new2"]) auto
    qed
  qed
qed

lemma orderly_if: "orderly a \<Longrightarrow> orderly b \<Longrightarrow> orderly (if c then a else b)"
  by simp

lemmas orderly_intros = orderly_and_then orderly_ret orderly_lift_e orderly_append_log
  orderly_read_logs orderly_agent_call orderly_if






section \<open>Running a branch step by step\<close>

lemma and_then_append_log: "and_then (append_log l) f s = f () (s\<lparr>logs := logs s @ [l]\<rparr>)"
  by (simp add: and_then_def append_log_def)

lemma and_then_lift_Inr: "and_then (lift_e (Inr x)) f s = f x s"
  by (simp add: and_then_def lift_e_def)

lemma and_then_lift_Inl: "and_then (lift_e (Inl e)) f s = (Inl e, s)"
  by (simp add: and_then_def lift_e_def)

lemma and_then_ret: "and_then (ret x) f s = f x s"
  by (simp add: and_then_def ret_def)

lemma and_then_read_logs: "and_then read_logs f s = f (logs s) s"
  by (simp add: and_then_def read_logs_def)

lemma and_then_assoc: "and_then (and_then m f) g = and_then m (\<lambda>x. and_then (f x) g)"
  by (rule ext) (auto simp: and_then_def split: prod.splits sum.splits)

lemma and_then_agent_call_Inr:
  "decode_reply (fst (net ag t a (world s))) = Inr v \<Longrightarrow>
   and_then (agent_call net ag t a) f s =
     f v (s\<lparr>world := snd (net ag t a (world s)),
            calls := calls s @ [\<lparr>target = ag, sent_tool = t, sent_arguments = a,
                                 reply = fst (net ag t a (world s)), logs_before = logs s\<rparr>]\<rparr>)"
  by (simp add: and_then_def agent_call_def split_def Let_def)

lemmas run_simps = and_then_append_log and_then_lift_Inr and_then_lift_Inl and_then_ret
  and_then_read_logs

lemma orderly_calls_grow: "orderly m \<Longrightarrow> \<exists>new. calls (snd (m s)) = calls s @ new"
  unfolding orderly_def by blast

text \<open>When a branch starts its calls with a given one, that is the first request made,
  whatever the reply and whatever follows.\<close>

lemma first_request:
  assumes k: "\<And>x. orderly (k x)" and none: "calls s = []"
  shows "take 1 (requests_made (snd (and_then (agent_call net ag t a) k s))) = [(ag, t, a)]"
proof -
  obtain r s1 where run: "agent_call net ag t a s = (r, s1)"
    by (cases "agent_call net ag t a s")
  then have c1: "requests_made s1 = [(ag, t, a)]"
    using none by (auto simp: agent_call_def requests_made_def split_def Let_def)
  show ?thesis
  proof (cases r)
    case (Inl e)
    with run have "and_then (agent_call net ag t a) k s = (Inl e, s1)"
      by (simp add: and_then_def)
    with c1 show ?thesis by simp
  next
    case (Inr x)
    with run have eq: "and_then (agent_call net ag t a) k s = k x s1"
      by (simp add: and_then_def)
    from orderly_calls_grow [OF k, of x s1] obtain new
      where "calls (snd (k x s1)) = calls s1 @ new" by blast
    then have "requests_made (snd (k x s1)) = requests_made s1 @
        map (\<lambda>c. (target c, sent_tool c, sent_arguments c)) new"
      by (simp add: requests_made_def)
    with c1 eq show ?thesis by simp
  qed
qed

section \<open>The customer id of each branch\<close>

lemma extract_id_chain:
  "extract_id lit dflt args query
     = id_chain (search_number lit (lower query)) (map_of args ''customer_id'') dflt"
  by (simp add: extract_id_def id_chain_def dict_get_def split: option.splits)

lemma data_branch_first:
  assumes id: "id_chain (search_number ''id'' (lower query)) (map_of args ''customer_id'') 1 = Inr cid"
    and none: "calls s = []"
  shows "take 1 (requests_made (snd (data_branch net args query s)))
         = [(DataAgent, ''get_customer'', JObj [(''customer_id'', JInt cid)])]"
  unfolding data_branch_def data_call_def
  by (simp only: run_simps extract_id_chain id, rule first_request,
      intro orderly_intros, simp add: none)

lemma multi_update_branch_first:
  assumes id: "id_chain (search_number ''customer'' (lower query)) (map_of args ''customer_id'') 1 = Inr cid"
    and none: "calls s = []"
  shows "take 1 (requests_made (snd (multi_update_branch net args query s)))
         = [(DataAgent, ''update_customer'',
             JObj [(''customer_id'', JInt cid),
                   (''data'', JObj [(''email'', extract_email args query)])])]"
  unfolding multi_update_branch_def data_call_def
  by (simp only: run_simps extract_id_chain id, rule first_request,
      intro orderly_intros, simp add: none)

lemma multi_coord_branch_first:
  assumes id: "id_chain (search_number ''customer'' (lower query)) (map_of args ''customer_id'') 0 = Inr cid"
    and none: "calls s = []"
  shows "take 1 (requests_made (snd (multi_coord_branch net args query s)))
         = (if cid = 0
            then [(SupportAgent, ''simple_support_reply'', JObj [(''text'', JStr query)])]
            else [(DataAgent, ''get_customer'', JObj [(''customer_id'', JInt cid)])])"
proof (cases "cid = 0")
  case True
  then show ?thesis
    unfolding multi_coord_branch_def data_call_def support_call_def
    by (simp only: run_simps extract_id_chain id if_True if_False simp_thms,
        simp only: run_simps, subst first_request, intro orderly_intros, simp add: none, simp)
next
  case False
  then show ?thesis
    unfolding multi_coord_branch_def data_call_def support_call_def
    by (simp only: run_simps extract_id_chain id if_True if_False simp_thms and_then_assoc,
        subst first_request, intro orderly_intros, simp add: none, simp)
qed

text \<open>When the conversion of the customer id raises, the branch raises that error before
  any call is made.\<close>

lemma data_branch_no_id:
  assumes id: "id_chain (search_number ''id'' (lower query)) (map_of args ''customer_id'') 1 = Inl e"
  shows "fst (data_branch net args query s) = Inl e
         \<and> calls (snd (data_branch net args query s)) = calls s"
  unfolding data_branch_def
  by (simp only: run_simps extract_id_chain id, simp)

lemma multi_update_branch_no_id:
  assumes id: "id_chain (search_number ''customer'' (lower query)) (map_of args ''customer_id'') 1 = Inl e"
  shows "fst (multi_update_branch net args query s) = Inl e
         \<and> calls (snd (multi_update_branch net args query s)) = calls s"
  unfolding multi_update_branch_def
  by (simp only: run_simps extract_id_chain id, simp)

lemma multi_coord_branch_no_id:
  assumes id: "id_chain (search_number ''customer'' (lower query)) (map_of args ''customer_id'') 0 = Inl e"
  shows "fst (multi_coord_branch net args query s) = Inl e
         \<and> calls (snd (multi_coord_branch net args query s)) = calls s"
  unfolding multi_coord_branch_def
  by (simp only: run_simps extract_id_chain id, simp)

lemma data_text: "classify_intent ''Get customer information for ID 5'' = ''DATA''"
  by code_simp

lemma data_id:
  "extract_id ''id'' 1 [(''text'', JStr ''Get customer information for ID 5'')]
     ''Get customer information for ID 5'' = Inr 5"
  by code_simp

section \<open>Open tickets\<close>

lemma last_show_nat: "last (show_nat n) \<in> set digit_chars"
proof -
  have "n mod 10 < length digit_chars" by (simp add: digit_chars_def)
  then have m: "digit_chars ! (n mod 10) \<in> set digit_chars" by (rule nth_mem)
  show ?thesis
  proof (cases "n < 10")
    case True
    then have "show_nat n = [digit_chars ! (n mod 10)]" by (subst show_nat.simps) simp
    with m show ?thesis by simp
  next
    case False
    then have "show_nat n = show_nat (n div 10) @ [digit_chars ! (n mod 10)]"
      by (subst show_nat.simps) simp
    with m show ?thesis by simp
  qed
qed

lemma show_nat_not_Nil: "show_nat n \<noteq> []"
  by (subst show_nat.simps) simp

lemma last_show_int: "last (show_int i) \<in> set digit_chars"
  by (simp add: show_int_def last_show_nat show_nat_not_Nil)

lemma show_int_not_Nil: "show_int i \<noteq> []"
  by (simp add: show_int_def show_nat_not_Nil)

lemma digit_not_upper: "c \<in> set digit_chars \<Longrightarrow> c \<notin> set upper_chars"
  by (auto simp: digit_chars_def upper_chars_def)

lemma lower_show_int: "lower (show_int i) \<noteq> ''open''"
proof
  assume eq: "lower (show_int i) = ''open''"
  have "last (lower (show_int i)) = lower_char (last (show_int i))"
    by (simp add: lower_def last_map show_int_not_Nil)
  also have "\<dots> = last (show_int i)"
    by (rule lower_char_fixed) (rule digit_not_upper [OF last_show_int])
  finally have "last (show_int i) = CHR ''n''" by (simp add: eq)
  with last_show_int [of i] show False by (simp add: digit_chars_def)
qed

lemma lower_bracket:
  "lower_char CHR ''['' = CHR ''[''" "lower_char CHR ''{'' = CHR ''{''"
  by (rule lower_char_fixed, simp add: upper_chars_def)+

lemma lower_words:
  "lower ''None'' \<noteq> ''open''" "lower ''True'' \<noteq> ''open''" "lower ''False'' \<noteq> ''open''"
  by code_simp+

lemma lower_py_repr_compound:
  "lower (py_repr (JArr xs)) \<noteq> ''open''" "lower (py_repr (JObj d)) \<noteq> ''open''"
  by (auto simp: lower_def lower_bracket)

lemma lower_py_str_open:
  "lower (py_str x) = ''open'' \<longleftrightarrow> (\<exists>s. x = JStr s \<and> lower s = ''open'')"
  by (cases x) (auto simp: lower_words lower_show_int lower_py_repr_compound
      simp del: py_repr.simps(5,6))

lemma lower_Nil: "lower [] = []"
  by (simp add: lower_def)

lemma is_open_Inr:
  assumes "is_open t = Inr b"
  shows "(\<exists>d. t = JObj d) \<and> b = open_ticket t"
proof (cases t)
  case (JObj d)
  show ?thesis
  proof (cases "map_of d ''status''")
    case None
    with JObj assms show ?thesis
      by (auto simp: is_open_def bind_e_def dict_get_def open_ticket_def field_def lower_Nil)
  next
    case (Some v)
    with JObj assms have "b = (lower (py_str v) = ''open'')"
      by (auto simp: is_open_def bind_e_def dict_get_def)
    moreover from JObj Some have "open_ticket t = (\<exists>s. v = JStr s \<and> lower s = ''open'')"
      by (cases v) (auto simp: open_ticket_def field_def dict_get_def)
    ultimately show ?thesis using JObj by (simp add: lower_py_str_open)
  qed
qed (use assms in \<open>auto simp: is_open_def bind_e_def\<close>)

lemma filter_e_is_open:
  "filter_e is_open ts = Inr xs \<Longrightarrow> xs = open_tickets_of ts"
proof (induction ts arbitrary: xs)
  case Nil
  then show ?case by (simp add: open_tickets_of_def)
next
  case (Cons t ts)
  from Cons.prems obtain b ys where b: "is_open t = Inr b" and ys: "filter_e is_open ts = Inr ys"
    and xs: "xs = (if b then t # ys else ys)"
    by (auto split: sum.splits)
  from is_open_Inr [OF b] have "b = open_ticket t" by simp
  with Cons.IH [OF ys] xs show ?case by (simp add: open_tickets_of_def)
qed

lemma open_tickets_are_objects: "t \<in> set (open_tickets_of ts) \<Longrightarrow> \<exists>d. t = JObj d"
  by (cases t) (auto simp: open_tickets_of_def open_ticket_def field_def)

lemma traverse_issue:
  "\<forall>t \<in> set xs. \<exists>d. t = JObj d \<Longrightarrow>
   traverse (\<lambda>t. py_get t ''issue'' JNull) xs = Inr (map (\<lambda>t. field t ''issue'') xs)"
  by (induction xs) (auto simp: field_def)

lemma issues_of_open: "issues_of (open_tickets_of ts) = Inr (issues_listed ts)"
  by (simp add: issues_of_def bind_e_def issues_listed_def traverse_issue open_tickets_are_objects)

lemma customer_entry_report:
  "customer_entry (JObj d) (open_tickets_of ts) = Inr (report_entry (JObj d) ts)"
  by (simp add: customer_entry_def bind_e_def issues_of_open report_entry_def field_def)

lemma py_index_Inr: "py_index x k = Inr v \<Longrightarrow> (\<exists>d. x = JObj d) \<and> v = field x k"
  by (cases x) (auto simp: field_def dict_get_def split: option.splits)

lemma open_report_Cons:
  "open_report ((c, ts) # ps) =
     (if open_tickets_of ts \<noteq> [] then [report_entry c ts] else []) @ open_report ps"
  by (simp add: open_report_def)

section \<open>Successful runs of the branches\<close>

lemma open_loop_Inr:
  "open_loop net cs acc s = (Inr res, s') \<Longrightarrow>
   \<exists>new hs. calls s' = calls s @ new
     \<and> map (\<lambda>c. decode_reply (reply c)) new = map Inr hs
     \<and> map (\<lambda>c. (target c, sent_tool c, sent_arguments c)) new
         = map (\<lambda>c. (DataAgent, ''get_customer_history'', JObj [(''customer_id'', field c ''id'')])) cs
     \<and> res = acc @ open_report (zip cs (map tickets_of hs))
     \<and> logs s' = logs s"
proof (induction cs arbitrary: acc s)
  case Nil
  then show ?case by (simp add: ret_def open_report_def)
next
  case (Cons cust rest)
  let ?a = "\<lambda>cid. JObj [(''customer_id'', cid)]"
  from Cons.prems obtain cid hist tickets open_tix acc' s1
    where cid: "py_index cust ''id'' = Inr cid"
      and hist: "decode_reply (fst (net DataAgent ''get_customer_history'' (?a cid) (world s))) = Inr hist"
      and s1: "s1 = s\<lparr>world := snd (net DataAgent ''get_customer_history'' (?a cid) (world s)),
                      calls := calls s @ [\<lparr>target = DataAgent, sent_tool = ''get_customer_history'',
                          sent_arguments = ?a cid,
                          reply = fst (net DataAgent ''get_customer_history'' (?a cid) (world s)),
                          logs_before = logs s\<rparr>]\<rparr>"
      and tickets: "bind_e (py_get hist ''tickets'' (JArr [])) py_iter = Inr tickets"
      and open_tix: "filter_e is_open tickets = Inr open_tix"
      and acc': "if open_tix \<noteq> [] then (\<exists>entry. customer_entry cust open_tix = Inr entry \<and> acc' = acc @ [entry])
                 else acc' = acc"
      and rest: "open_loop net rest acc' s1 = (Inr res, s')"
    by (auto simp: step_Inr data_call_def split: if_splits)
  let ?c = "\<lparr>target = DataAgent, sent_tool = ''get_customer_history'',
              sent_arguments = ?a cid,
              reply = fst (net DataAgent ''get_customer_history'' (?a cid) (world s)),
              logs_before = logs s\<rparr>"
  from py_index_Inr [OF cid] obtain d where cust: "cust = JObj d" and cid': "cid = field cust ''id''"
    by blast
  from filter_e_is_open [OF open_tix] have ot: "open_tix = open_tickets_of tickets" .
  from tickets have tof: "tickets_of hist = tickets" by (simp add: tickets_of_def)
  have acc'': "acc' = acc @ (if open_tickets_of tickets \<noteq> [] then [report_entry cust tickets] else [])"
    using acc' ot cust by (auto simp: customer_entry_report)
  from Cons.IH [OF rest] obtain new hs where
    n: "calls s' = calls s1 @ new"
       "map (\<lambda>c. decode_reply (reply c)) new = map Inr hs"
       "map (\<lambda>c. (target c, sent_tool c, sent_arguments c)) new
         = map (\<lambda>c. (DataAgent, ''get_customer_history'', JObj [(''customer_id'', field c ''id'')])) rest"
       "res = acc' @ open_report (zip rest (map tickets_of hs))"
       "logs s' = logs s1"
    by blast
  have "calls s' = calls s @ (?c # new)" using n(1) s1 by simp
  moreover have "map (\<lambda>c. decode_reply (reply c)) (?c # new) = map Inr (hist # hs)"
    using n(2) hist by simp
  moreover have "map (\<lambda>c. (target c, sent_tool c, sent_arguments c)) (?c # new)
         = map (\<lambda>c. (DataAgent, ''get_customer_history'', JObj [(''customer_id'', field c ''id'')]))
             (cust # rest)"
    using n(3) cid' by simp
  moreover have "res = acc @ open_report (zip (cust # rest) (map tickets_of (hist # hs)))"
    using n(4) acc'' tof by (simp add: open_report_Cons)
  moreover have "logs s' = logs s" using n(5) s1 by simp
  ultimately show ?case by blast
qed

lemma data_branch_Inr:
  "data_branch net args query s = (Inr env, s') \<Longrightarrow>
   \<exists>new fn. calls s' = calls s @ new \<and> map target new = [DataAgent]
     \<and> logs s' = logs s @ [''Router classified as DATA'', ''Data Agent used MCP tools'']
     \<and> env = build_response (make_payload ''data'' ''router -> data'' (logs s') fn)"
  by (auto simp: data_branch_def data_call_def step_Inr)

lemma support_branch_Inr:
  "support_branch net query s = (Inr env, s') \<Longrightarrow>
   \<exists>new fn. calls s' = calls s @ new \<and> map target new = [SupportAgent]
     \<and> logs s' = logs s @ [''Router classified as SUPPORT'']
     \<and> env = build_response (make_payload ''support'' ''router -> support'' (logs s') fn)"
  by (auto simp: support_branch_def support_call_def step_Inr)

lemma multi_update_branch_Inr:
  "multi_update_branch net args query s = (Inr env, s') \<Longrightarrow>
   \<exists>new fn. calls s' = calls s @ new \<and> map target new = [DataAgent, DataAgent]
     \<and> logs s' = logs s @ [''Router classified as MULTI'', ''Data Agent invoked via MCP'',
                            ''Support Agent generated coordinated response'']
     \<and> env = build_response (make_payload ''multi-intent'' ''router -> data -> support'' (logs s') fn)"
  by (auto simp: multi_update_branch_def data_call_def step_Inr)

lemma multi_coord_branch_Inr:
  "multi_coord_branch net args query s = (Inr env, s') \<Longrightarrow>
   \<exists>new fn. calls s' = calls s @ new
     \<and> (map target new = [DataAgent, SupportAgent]
          \<and> logs s' = logs s @ [''Router classified as MULTI'', ''Data Agent invoked via MCP'',
                                 ''Support Agent generated coordinated response'']
        \<or> map target new = [SupportAgent]
          \<and> logs s' = logs s @ [''Router classified as MULTI'',
                                 ''Support Agent generated coordinated response''])
     \<and> env = build_response (make_payload ''multi-intent'' ''router -> data -> support'' (logs s') fn)"
  by (auto simp: multi_coord_branch_def data_call_def support_call_def step_Inr split: if_splits)

lemma multi_open_branch_Inr:
  assumes "multi_open_branch net s = (Inr env, s')"
  shows "\<exists>c new r hs. calls s' = calls s @ c # new
     \<and> (target c, sent_tool c, sent_arguments c)
         = (DataAgent, ''list_customers'', JObj [(''status'', JStr ''active''), (''limit'', JInt 200)])
     \<and> decode_reply (reply c) = Inr r
     \<and> map (\<lambda>c. decode_reply (reply c)) new = map Inr hs
     \<and> map (\<lambda>c. (target c, sent_tool c, sent_arguments c)) new
         = map (\<lambda>c. (DataAgent, ''get_customer_history'', JObj [(''customer_id'', field c ''id'')]))
             (listed r)
     \<and> logs s' = logs s @ [''Router classified as MULTI'', ''Data Agent invoked via MCP'',
                            ''Support Agent generated coordinated response'']
     \<and> env = build_response (make_payload ''multi-intent'' ''router -> data -> support'' (logs s')
               (JArr (open_report (zip (listed r) (map tickets_of hs)))))"
proof -
  let ?a = "JObj [(''status'', JStr ''active''), (''limit'', JInt 200)]"
  let ?c = "\<lparr>target = DataAgent, sent_tool = ''list_customers'', sent_arguments = ?a,
              reply = fst (net DataAgent ''list_customers'' ?a (world s)),
              logs_before = logs s @ [''Router classified as MULTI'']\<rparr>"
  from assms obtain r customers result s1 s2
    where r: "decode_reply (fst (net DataAgent ''list_customers'' ?a (world s))) = Inr r"
      and s1: "s1 = s\<lparr>logs := logs s @ [''Router classified as MULTI''],
                      world := snd (net DataAgent ''list_customers'' ?a (world s)),
                      calls := calls s @ [?c]\<rparr>"
      and customers: "bind_e (py_get r ''customers'' (JArr [])) py_iter = Inr customers"
      and loop: "open_loop net customers [] s1 = (Inr result, s2)"
      and s': "s' = s2\<lparr>logs := logs s2 @ [''Data Agent invoked via MCP'',
                                           ''Support Agent generated coordinated response'']\<rparr>"
      and env: "env = build_response (make_payload ''multi-intent'' ''router -> data -> support''
                  (logs s2 @ [''Data Agent invoked via MCP'',
                              ''Support Agent generated coordinated response'']) (JArr result))"
    by (auto simp: multi_open_branch_def data_call_def step_Inr)
  from customers have l: "listed r = customers" by (simp add: listed_def)
  from open_loop_Inr [OF loop] obtain new hs where
    n: "calls s2 = calls s1 @ new"
       "map (\<lambda>c. decode_reply (reply c)) new = map Inr hs"
       "map (\<lambda>c. (target c, sent_tool c, sent_arguments c)) new
         = map (\<lambda>c. (DataAgent, ''get_customer_history'', JObj [(''customer_id'', field c ''id'')]))
             customers"
       "result = [] @ open_report (zip customers (map tickets_of hs))"
       "logs s2 = logs s1"
    by blast
  have "calls s' = calls s @ ?c # new" using n(1) s1 s' by simp
  moreover have "logs s' = logs s @ [''Router classified as MULTI'', ''Data Agent invoked via MCP'',
                            ''Support Agent generated coordinated response'']"
    using n(5) s1 s' by simp
  moreover have "env = build_response (make_payload ''multi-intent'' ''router -> data -> support'' (logs s')
               (JArr (open_report (zip (listed r) (map tickets_of hs)))))"
    using env n(4) l s' by simp
  moreover have "(target ?c, sent_tool ?c, sent_arguments ?c)
         = (DataAgent, ''list_customers'', ?a)" by simp
  moreover have "decode_reply (reply ?c) = Inr r" using r by simp
  ultimately show ?thesis using n(2,3) l by blast
qed

section \<open>Facts about the sample requests\<close>

lemma customer7_facts:
  "classify_intent ''customer 7'' = ''DATA''"
  "search_number ''id'' (lower ''customer 7'') = None"
  "search_number ''customer'' (lower ''customer 7'') = Some ''7''"
  "nat_of_digits ''7'' = 7"
  by code_simp+

lemma update_text_facts:
  "classify_intent ''Update my email to Ann@X.org, ticket history'' = ''MULTI_UPDATE''"
  "search_number ''customer'' (lower ''Update my email to Ann@X.org, ticket history'') = None"
  "search_token ''update my email to '' (lower ''Update my email to Ann@X.org, ticket history'')
     = Some ''ann@x.org,''"
  by code_simp+

lemma upgrade_text_facts:
  "classify_intent ''customer 7 upgrade'' = ''MULTI_COORD''"
  "search_number ''customer'' (lower ''customer 7 upgrade'') = Some ''7''"
  by code_simp+

section \<open>Whole runs\<close>

lemma run_is_dispatch:
  assumes "tool req \<in> {''route_task'', ''route''}"
  shows "router_call net req s =
     dispatch net
       (classify_intent (py_str (dict_get (case arguments req of None \<Rightarrow> [] | Some d \<Rightarrow> d) ''text'' (JStr []))))
       (case arguments req of None \<Rightarrow> [] | Some d \<Rightarrow> d)
       (py_str (dict_get (case arguments req of None \<Rightarrow> [] | Some d \<Rightarrow> d) ''text'' (JStr [])))
       (s\<lparr>logs := []\<rparr>)"
  using assms by (simp add: router_call_def Let_def)

lemma classify_intent_five:
  "classify_intent x \<in> {''DATA'', ''SUPPORT'', ''MULTI_OPEN'', ''MULTI_COORD'', ''MULTI_UPDATE''}"
  by (simp add: classify_intent_def Let_def)

lemma envelope_fields:
  "py_index (build_response (make_payload sc rt lg fn)) ''logs'' = Inr (JArr (map JStr lg))"
  "py_index (build_response (make_payload sc rt lg fn)) ''final'' = Inr fn"
  "py_index (build_response (make_payload sc rt lg fn)) ''scenario'' = Inr (JStr sc)"
  "py_index (build_response (make_payload sc rt lg fn)) ''route'' = Inr (JStr rt)"
  by (simp_all add: build_response_shape)

lemma targets_facts:
  assumes "map target new = ts"
  shows "length new = length ts" "target ` set new = set ts"
proof -
  from assms have "length (map target new) = length ts" by simp
  then show "length new = length ts" by simp
  from assms have "set (map target new) = set ts" by simp
  then show "target ` set new = set ts" by simp
qed

lemma run_completes: "\<not> isl (fst p) \<Longrightarrow> \<exists>env s'. p = (Inr env, s')"
  by (cases p; cases "fst p") auto

lemma sample_texts:
  "classify_intent ''active customers, open tickets'' = ''MULTI_OPEN''"
  "classify_intent ''refund'' = ''SUPPORT''"
  by code_simp+

lemma sample_runs_complete:
  "\<not> isl (fst (router_call tickets_net open_request (start ())))"
  "\<not> isl (fst (router_call ana_net ana_request (start ())))"
  "\<not> isl (fst (router_call tickets_net update_request (start ())))"
  "\<not> isl (fst (router_call ana_net upgrade_request (start ())))"
  "\<not> isl (fst (router_call ana_net refund_request (start ())))"
  by code_simp+

lemma sample_routes:
  "classify_intent (py_str (dict_get (case arguments open_request of None \<Rightarrow> [] | Some d \<Rightarrow> d)
     ''text'' (JStr []))) = ''MULTI_OPEN''"
  "classify_intent (py_str (dict_get (case arguments ana_request of None \<Rightarrow> [] | Some d \<Rightarrow> d)
     ''text'' (JStr []))) = ''DATA''"
  "classify_intent (py_str (dict_get (case arguments update_request of None \<Rightarrow> [] | Some d \<Rightarrow> d)
     ''text'' (JStr []))) = ''MULTI_UPDATE''"
  "classify_intent (py_str (dict_get (case arguments upgrade_request of None \<Rightarrow> [] | Some d \<Rightarrow> d)
     ''text'' (JStr []))) = ''MULTI_COORD''"
  "classify_intent (py_str (dict_get (case arguments refund_request of None \<Rightarrow> [] | Some d \<Rightarrow> d)
     ''text'' (JStr []))) = ''SUPPORT''"
  by (simp_all add: open_request_def ana_request_def update_request_def upgrade_request_def
      refund_request_def dict_get_def sample_texts data_text update_text_facts upgrade_text_facts)

lemma sample_tools:
  "tool open_request \<in> {''route_task'', ''route''}"
  "tool ana_request \<in> {''route_task'', ''route''}"
  "tool update_request \<in> {''route_task'', ''route''}"
  "tool upgrade_request \<in> {''route_task'', ''route''}"
  "tool refund_request \<in> {''route_task'', ''route''}"
  by (simp_all add: open_request_def ana_request_def update_request_def upgrade_request_def
      refund_request_def)

section \<open>The email token\<close>

lemma letters_not_space:
  "\<forall>c \<in> set upper_chars. \<not> is_space c" "\<forall>c \<in> set lower_chars. \<not> is_space c"
  by code_simp+

lemma upper_not_space: "c \<in> set upper_chars \<Longrightarrow> \<not> is_space c"
  using letters_not_space(1) by blast

lemma lower_not_space: "c \<in> set lower_chars \<Longrightarrow> \<not> is_space c"
  using letters_not_space(2) by blast

lemma length_case_tables: "length upper_chars = length lower_chars"
  by (simp add: upper_chars_def lower_chars_def)

lemma lower_char_of_upper: "c \<in> set upper_chars \<Longrightarrow> lower_char c \<in> set lower_chars"
proof -
  assume "c \<in> set upper_chars"
  then obtain d where d: "map_of (zip upper_chars lower_chars) c = Some d"
    using map_of_zip_is_Some [OF length_case_tables] by blast
  then have "(c, d) \<in> set (zip upper_chars lower_chars)" by (rule map_of_SomeD)
  then have "d \<in> set lower_chars" by (rule set_zip_rightD)
  with d show ?thesis by (simp add: lower_char_def)
qed

lemma is_space_lower_char: "is_space (lower_char c) \<longleftrightarrow> is_space c"
proof (cases "c \<in> set upper_chars")
  case True
  then show ?thesis
    using upper_not_space lower_not_space [OF lower_char_of_upper] by blast
next
  case False
  then show ?thesis by (simp add: lower_char_fixed)
qed

lemma lower_Cons: "lower (c # cs) = lower_char c # lower cs"
  by (simp add: lower_def)

lemma lower_eq_append:
  assumes "lower t = a @ b"
  obtains a' b' where "t = a' @ b'" "lower a' = a" "lower b' = b"
proof
  show "t = take (length a) t @ drop (length a) t" by simp
  show "lower (take (length a) t) = a" by (simp add: lower_take assms)
  show "lower (drop (length a) t) = b" by (simp add: lower_drop assms)
qed

lemma lower_eq_Cons:
  assumes "lower t = c # b"
  obtains c' b' where "t = c' # b'" "lower_char c' = c" "lower b' = b"
  using assms by (cases t) (auto simp: lower_def)

lemma match_token_at_here:
  assumes "tok \<noteq> []" "\<forall>c \<in> set tok. \<not> is_space c" "rest \<noteq> [] \<longrightarrow> is_space (hd rest)"
  shows "match_token_at lit (lit @ tok @ rest) = Some tok"
proof -
  have "takeWhile (\<lambda>c. \<not> is_space c) (tok @ rest) = tok"
  proof (cases rest)
    case Nil
    with assms(2) show ?thesis by simp
  next
    case (Cons x xs)
    with assms(3) have "is_space x" by simp
    with assms(2) Cons show ?thesis by (simp add: takeWhile_tail)
  qed
  with assms(1) show ?thesis
    by (simp add: match_token_at_def starts_with_iff)
qed

lemma match_token_at_Some:
  assumes "match_token_at lit s = Some tok"
  obtains c suf where "s = lit @ c # suf" "\<not> is_space c"
proof -
  from assms obtain r where s: "s = lit @ r" and t: "takeWhile (\<lambda>c. \<not> is_space c) r \<noteq> []"
    by (auto simp: match_token_at_def starts_with_iff Let_def split: if_splits)
  from t obtain c suf where r: "r = c # suf" by (cases r) auto
  with t have "\<not> is_space c" by (auto split: if_splits)
  with s r that show thesis by blast
qed

lemma search_token_hit:
  "s \<noteq> [] \<Longrightarrow> match_token_at lit s = Some t \<Longrightarrow> search_token lit s = Some t"
  by (cases s) simp_all

lemma search_token_skip:
  "match_token_at lit (a # s) = None \<Longrightarrow> search_token lit (a # s) = search_token lit s"
  by simp

lemma search_token_first:
  assumes "tok \<noteq> []" "\<forall>c \<in> set tok. \<not> is_space c" "rest \<noteq> [] \<longrightarrow> is_space (hd rest)"
    and "lit \<noteq> []"
    and "\<forall>p' c suf. p @ lit @ tok @ rest = p' @ lit @ c # suf \<and> length p' < length p \<longrightarrow> is_space c"
  shows "search_token lit (p @ lit @ tok @ rest) = Some tok"
  using assms(5)
proof (induction p)
  case Nil
  have m: "match_token_at lit (lit @ tok @ rest) = Some tok"
    by (rule match_token_at_here [OF assms(1,2,3)])
  have ne: "lit @ tok @ rest \<noteq> []" using assms(4) by simp
  show ?case
    unfolding append_Nil by (rule search_token_hit [OF ne m])
next
  case (Cons a p)
  let ?s = "lit @ tok @ rest"
  have none: "match_token_at lit (a # (p @ ?s)) = None"
  proof (rule ccontr)
    assume "match_token_at lit (a # (p @ ?s)) \<noteq> None"
    then obtain t where "match_token_at lit (a # (p @ ?s)) = Some t" by blast
    then obtain c suf where e: "a # (p @ ?s) = lit @ c # suf" and c: "\<not> is_space c"
      by (rule match_token_at_Some)
    from e have "(a # p) @ ?s = [] @ lit @ c # suf"
      unfolding append_Cons append_Nil .
    moreover have "length ([]::string) < length (a # p)" by simp
    ultimately show False using Cons.prems c by blast
  qed
  have "\<forall>p' c suf. p @ ?s = p' @ lit @ c # suf \<and> length p' < length p \<longrightarrow> is_space c"
  proof (intro allI impI)
    fix p' c suf
    assume h: "p @ ?s = p' @ lit @ c # suf \<and> length p' < length p"
    from h have "a # (p @ ?s) = a # (p' @ lit @ c # suf)" by (rule conjunct1 [THEN arg_cong])
    then have "(a # p) @ ?s = (a # p') @ lit @ c # suf"
      unfolding append_Cons .
    moreover from h have "length (a # p') < length (a # p)" by simp
    ultimately show "is_space c" using Cons.prems by blast
  qed
  from Cons.IH [OF this] have "search_token lit (p @ ?s) = Some tok" .
  with search_token_skip [OF none] show ?case
    unfolding append_Cons by (rule trans)
qed

lemma extract_email_lower_token:
  assumes q: "query = pre @ phrase @ tok @ rest"
    and ph: "lower phrase = ''update my email to ''"
    and tok: "tok \<noteq> []" "\<forall>c \<in> set tok. \<not> is_space c" "rest \<noteq> [] \<longrightarrow> is_space (hd rest)"
    and first: "\<forall>p w c suf. query = p @ w @ c # suf \<and> lower w = ''update my email to ''
                  \<and> length p < length pre \<longrightarrow> is_space c"
  shows "extract_email args query = JStr (lower tok)"
proof -
  let ?lit = "''update my email to ''"
  have "lower query = lower pre @ lower phrase @ lower tok @ lower rest"
    unfolding q lower_append ..
  then have lq: "lower query = lower pre @ ?lit @ lower tok @ lower rest"
    unfolding ph .
  have 1: "lower tok \<noteq> []" using tok(1) by (simp add: lower_def)
  have 2: "\<forall>c \<in> set (lower tok). \<not> is_space c"
    using tok(2) by (auto simp: lower_def is_space_lower_char)
  have 3: "lower rest \<noteq> [] \<longrightarrow> is_space (hd (lower rest))"
    using tok(3) by (cases rest) (auto simp: lower_Cons is_space_lower_char lower_def)
  have 4: "\<forall>p' c suf. lower pre @ ?lit @ lower tok @ lower rest = p' @ ?lit @ c # suf
              \<and> length p' < length (lower pre) \<longrightarrow> is_space c"
  proof (intro allI impI)
    fix p' c suf
    assume a: "lower pre @ ?lit @ lower tok @ lower rest = p' @ ?lit @ c # suf
              \<and> length p' < length (lower pre)"
    from lq a [THEN conjunct1] have "lower query = p' @ (?lit @ c # suf)" by (rule trans)
    then obtain p0 r0 where p0: "query = p0 @ r0" "lower p0 = p'" "lower r0 = ?lit @ c # suf"
      by (rule lower_eq_append)
    from p0(3) obtain w r1 where w: "r0 = w @ r1" "lower w = ?lit" "lower r1 = c # suf"
      by (rule lower_eq_append)
    from w(3) obtain c0 suf0 where c0: "r1 = c0 # suf0" "lower_char c0 = c"
      by (rule lower_eq_Cons)
    from a have "length p' < length (lower pre)" by (rule conjunct2)
    then have len: "length p0 < length pre"
      unfolding p0(2) [symmetric] length_lower .
    have "query = p0 @ w @ c0 # suf0"
      unfolding p0(1) w(1) c0(1) ..
    with first w(2) len have "is_space c0" by blast
    then show "is_space c"
      unfolding c0(2) [symmetric] is_space_lower_char .
  qed
  have "search_token ?lit (lower query) = Some (lower tok)"
    unfolding lq by (rule search_token_first [OF 1 2 3 _ 4]) simp
  then show ?thesis by (simp add: extract_email_def)
qed

lemma multi_update_requests:
  assumes "calls s = []"
    and "rq \<in> set (requests_made (snd (multi_update_branch net args query s)))"
    and "fst (snd rq) = ''update_customer''"
  shows "\<exists>cid. snd (snd rq) = JObj [(''customer_id'', JInt cid),
                                     (''data'', JObj [(''email'', extract_email args query)])]"
  using assms
  by (auto simp: multi_update_branch_def and_then_def ret_def lift_e_def append_log_def
      read_logs_def data_call_def agent_call_def requests_made_def Let_def split_def
      split: sum.splits)

lemma join_two: "join sep (x # y # ys) = x @ sep @ join sep (y # ys)"
  by simp

lemma multi_update_branch_final:
  assumes "multi_update_branch net args query s = (Inr env, s')"
  shows "\<exists>more. py_index env ''final''
           = Inr (JStr (update_header (extract_email args query) @ more))"
proof -
  from assms obtain blocks lg where
    "env = build_response (make_payload ''multi-intent'' ''router -> data -> support'' lg
            (JStr (join [CHR 0x0A]
               ([update_header (extract_email args query), ''Here is your ticket history:'' @ [CHR 0x0A]]
                @ blocks))))"
    by (auto simp: multi_update_branch_def data_call_def step_Inr simp del: join.simps)
  then have "py_index env ''final''
      = Inr (JStr (update_header (extract_email args query) @ [CHR 0x0A]
              @ join [CHR 0x0A] ((''Here is your ticket history:'' @ [CHR 0x0A]) # blocks)))"
    by (simp only: envelope_fields append_Cons append_Nil join_two)
  then show ?thesis by blast
qed

lemma update_token_facts:
  "''Update my email to Ann@X.org, ticket history''
     = [] @ ''Update my email to '' @ ''Ann@X.org,'' @ '' ticket history''"
  "lower ''Update my email to '' = ''update my email to ''"
  "lower ''Ann@X.org,'' = ''ann@x.org,''"
  "\<forall>c \<in> set ''Ann@X.org,''. \<not> is_space c"
  "'' ticket history'' \<noteq> [] \<longrightarrow> is_space (hd '' ticket history'')"
  by code_simp+

section \<open>Claims\<close>

subsection \<open>Classification\<close>

text \<open>
  Claim C1. For every input text, \<open>classify_intent\<close> returns the label of the first rule of
  the ordered table MULTI_OPEN, MULTI_UPDATE, MULTI_COORD, SUPPORT, DATA whose phrases occur
  in the text case-insensitively as substrings; the empty text and every text that matches
  no rule are classified as DATA; and a text that matches the MULTI_OPEN rule and also
  the SUPPORT rule is classified as MULTI_OPEN.
\<close>

theorem C1_classify_priority:
  "classify_intent text = classify_spec text
   \<and> classify_intent [] = ''DATA''
   \<and> ((\<forall>label. \<not> rule_matches label text) \<longrightarrow> classify_intent text = ''DATA'')
   \<and> (rule_matches ''MULTI_OPEN'' text \<and> rule_matches ''SUPPORT'' text
        \<longrightarrow> classify_intent text = ''MULTI_OPEN'')"
proof (intro conjI impI)
  show "classify_intent text = classify_spec text"
    by (rule classify_intent_spec)
  show "classify_intent [] = ''DATA''"
    by (simp add: classify_intent_def lower_def)
  show "classify_intent text = ''DATA''" if "\<forall>label. \<not> rule_matches label text"
    using no_rule_matches [OF that] by (simp add: classify_intent_spec classify_spec_def)
  show "classify_intent text = ''MULTI_OPEN''"
    if "rule_matches ''MULTI_OPEN'' text \<and> rule_matches ''SUPPORT'' text"
    using that
    by (auto simp: rule_matches_simps classify_intent_def Let_def occurs_ci_iff phrase_lower)
qed

theorem C1_classify_priority_witness:
  "rule_matches ''MULTI_OPEN'' ''Active customers, open tickets, REFUND''
   \<and> rule_matches ''SUPPORT'' ''Active customers, open tickets, REFUND''
   \<and> classify_intent ''Active customers, open tickets, REFUND'' = ''MULTI_OPEN''
   \<and> (\<forall>label. \<not> rule_matches label ''hi'')
   \<and> classify_intent ''hi'' = ''DATA''"
proof -
  let ?t = "''Active customers, open tickets, REFUND''"
  have a: "substr_in ''active customers'' (lower ?t)" by code_simp
  have b: "substr_in ''open ticket'' (lower ?t)" by code_simp
  have c: "substr_in ''refund'' (lower ?t)" by code_simp
  have m: "rule_matches ''MULTI_OPEN'' ?t \<and> rule_matches ''SUPPORT'' ?t"
    using a b c by (simp add: rule_matches_simps occurs_ci_iff phrase_lower)
  have hi: "lower ''hi'' = ''hi''" by code_simp
  have n: "\<forall>label. \<not> rule_matches label ''hi''"
    by (auto simp: rule_matches_def intent_rules_def occurs_ci_iff phrase_lower hi)
  from m C1_classify_priority [of ?t] have "classify_intent ?t = ''MULTI_OPEN''" by blast
  moreover from n C1_classify_priority [of "''hi''"] have "classify_intent ''hi'' = ''DATA''"
    by blast
  ultimately show ?thesis using m n by blast
qed

text \<open>
  Claim C10. \<open>classify_intent\<close> always returns one of the five labels DATA, SUPPORT,
  MULTI_OPEN, MULTI_COORD, MULTI_UPDATE, so for every request with a recognized tool the
  fallback branch is unreachable: the request runs one of the five branches, and the
  outcome is the same whatever stands in the place of the fallback. The fallback branch
  itself, were it run, would return an envelope with the trace it found, which is empty
  at that point.
\<close>

theorem C10_fallback_unreachable:
  "classify_intent text \<in> {''DATA'', ''SUPPORT'', ''MULTI_OPEN'', ''MULTI_COORD'', ''MULTI_UPDATE''}
   \<and> (tool req \<in> {''route_task'', ''route''} \<longrightarrow>
        router_call net req s =
          (let args = (case arguments req of None \<Rightarrow> [] | Some d \<Rightarrow> d);
               query = py_str (dict_get args ''text'' (JStr []));
               route = classify_intent query
           in (if route = ''DATA'' then data_branch net args query
               else if route = ''SUPPORT'' then support_branch net query
               else if route = ''MULTI_OPEN'' then multi_open_branch net
               else if route = ''MULTI_COORD'' then multi_coord_branch net args query
               else if route = ''MULTI_UPDATE'' then multi_update_branch net args query
               else anything) (s\<lparr>logs := []\<rparr>)))
   \<and> (fallback_branch net query s = (Inr env, s') \<longrightarrow>
        (\<exists>sc rt fn. env = build_response (make_payload sc rt (logs s) fn)))"
proof (intro conjI impI)
  show five: "classify_intent x \<in> {''DATA'', ''SUPPORT'', ''MULTI_OPEN'', ''MULTI_COORD'', ''MULTI_UPDATE''}"
    for x
    by (simp add: classify_intent_def Let_def)
  assume "tool req \<in> {''route_task'', ''route''}"
  then show "router_call net req s =
          (let args = (case arguments req of None \<Rightarrow> [] | Some d \<Rightarrow> d);
               query = py_str (dict_get args ''text'' (JStr []));
               route = classify_intent query
           in (if route = ''DATA'' then data_branch net args query
               else if route = ''SUPPORT'' then support_branch net query
               else if route = ''MULTI_OPEN'' then multi_open_branch net
               else if route = ''MULTI_COORD'' then multi_coord_branch net args query
               else if route = ''MULTI_UPDATE'' then multi_update_branch net args query
               else anything) (s\<lparr>logs := []\<rparr>))"
    using five [of "py_str (dict_get (case arguments req of None \<Rightarrow> [] | Some d \<Rightarrow> d) ''text'' (JStr []))"]
    unfolding router_call_def dispatch_def Let_def by auto
next
  assume "fallback_branch net query s = (Inr env, s')"
  then show "\<exists>sc rt fn. env = build_response (make_payload sc rt (logs s) fn)"
    unfolding fallback_branch_def support_call_def by (auto simp: step_Inr)
qed

theorem C10_fallback_unreachable_witness:
  "tool ana_request \<in> {''route_task'', ''route''}
   \<and> router_call ana_net ana_request (start ())
       = data_branch ana_net [(''text'', JStr ''Get customer information for ID 5'')]
           ''Get customer information for ID 5'' (start ())"
proof -
  have t: "tool ana_request \<in> {''route_task'', ''route''}"
    by (simp add: ana_request_def)
  have c: "classify_intent ''Get customer information for ID 5'' = ''DATA''"
    by code_simp
  from t C10_fallback_unreachable [of _ ana_request ana_net "start ()"]
  have "router_call ana_net ana_request (start ()) =
          (let args = (case arguments ana_request of None \<Rightarrow> [] | Some d \<Rightarrow> d);
               query = py_str (dict_get args ''text'' (JStr []));
               route = classify_intent query
           in (if route = ''DATA'' then data_branch ana_net args query
               else if route = ''SUPPORT'' then support_branch ana_net query
               else if route = ''MULTI_OPEN'' then multi_open_branch ana_net
               else if route = ''MULTI_COORD'' then multi_coord_branch ana_net args query
               else if route = ''MULTI_UPDATE'' then multi_update_branch ana_net args query
               else ret JNull) ((start ())\<lparr>logs := []\<rparr>))"
    by blast
  then show ?thesis
    using t by (simp add: ana_request_def dict_get_def c start_def Let_def)
qed

subsection \<open>Collaborator failures\<close>





subsection \<open>The response envelope\<close>

text \<open>
  Claim C6. Every value returned by a successful run for a recognized tool has the four
  top-level fields scenario, route, logs and final, and a field result that holds the
  same four fields with the same values.
\<close>

theorem C6_envelope_mirrors_result:
  assumes "tool req \<in> {''route_task'', ''route''}"
    and "router_call net req s = (Inr env, s')"
  shows "\<exists>sc rt lg fn.
           env = JObj [(''scenario'', sc), (''route'', rt), (''logs'', lg), (''final'', fn),
                       (''result'', JObj [(''scenario'', sc), (''route'', rt),
                                          (''logs'', lg), (''final'', fn)])]"
proof -
  from assms have "dispatch net
      (classify_intent (py_str (dict_get (case arguments req of None \<Rightarrow> [] | Some d \<Rightarrow> d) ''text'' (JStr []))))
      (case arguments req of None \<Rightarrow> [] | Some d \<Rightarrow> d)
      (py_str (dict_get (case arguments req of None \<Rightarrow> [] | Some d \<Rightarrow> d) ''text'' (JStr [])))
      (s\<lparr>logs := []\<rparr>) = (Inr env, s')"
    by (auto simp: router_call_def Let_def)
  with dispatch_envelope have "is_envelope env"
    unfolding returns_def by blast
  then show ?thesis
    unfolding is_envelope_def by (auto simp: build_response_shape)
qed

lemma ana_run:
  "router_call ana_net ana_request (start ()) =
     (Inr (build_response (make_payload ''data'' ''router -> data''
             [''Router classified as DATA'', ''Data Agent used MCP tools'']
             (JObj [(''type'', JStr ''get_customer''), (''customer_id'', JInt 5),
                    (''customer'', JObj [(''customer'', ana)])]))),
      \<lparr>world = (),
       calls = [\<lparr>target = DataAgent, sent_tool = ''get_customer'',
                 sent_arguments = JObj [(''customer_id'', JInt 5)],
                 reply = Response 200 (Some (JObj [(''customer'', ana)])),
                 logs_before = [''Router classified as DATA'']\<rparr>],
       logs = [''Router classified as DATA'', ''Data Agent used MCP tools'']\<rparr>)"
  by code_simp

theorem C6_envelope_mirrors_result_witness:
  "tool ana_request \<in> {''route_task'', ''route''}
   \<and> (\<exists>env s'. router_call ana_net ana_request (start ()) = (Inr env, s')
        \<and> (\<exists>sc rt lg fn.
             env = JObj [(''scenario'', sc), (''route'', rt), (''logs'', lg), (''final'', fn),
                         (''result'', JObj [(''scenario'', sc), (''route'', rt),
                                            (''logs'', lg), (''final'', fn)])]))"
proof -
  have t: "tool ana_request \<in> {''route_task'', ''route''}"
    by (simp add: ana_request_def)
  from C6_envelope_mirrors_result [OF t ana_run] t ana_run show ?thesis
    by blast
qed

subsection \<open>The two entry points\<close>

text \<open>
  Claim C8. For every content string, the message entry point called with a role and that
  content returns exactly what the structured entry point returns for the tool
  \<open>route_task\<close> with the arguments \<open>{text: content}\<close>, and leaves the same state; the role
  plays no part, the tool name \<open>route\<close> gives the same, and both run the branch chosen
  by classifying the content.
\<close>

theorem C8_message_is_route_task:
  "router_message net \<lparr>role = r, content = c\<rparr> s
     = router_call net \<lparr>tool = ''route_task'', arguments = Some [(''text'', JStr c)]\<rparr> s
   \<and> router_message net \<lparr>role = r, content = c\<rparr> s
     = router_call net \<lparr>tool = ''route'', arguments = Some [(''text'', JStr c)]\<rparr> s
   \<and> router_message net \<lparr>role = r, content = c\<rparr> s
     = dispatch net (classify_intent c) [(''text'', JStr c)] c (s\<lparr>logs := []\<rparr>)"
  by (simp add: router_message_def router_call_def dict_get_def)

theorem C8_message_is_route_task_witness:
  "router_message ana_net \<lparr>role = ''user'', content = ''Get customer information for ID 5''\<rparr>
       (start ())
     = router_call ana_net ana_request (start ())"
  unfolding ana_request_def
  using C8_message_is_route_task
    [of ana_net "''user''" "''Get customer information for ID 5''" "start ()"]
  by blast

subsection \<open>Entity extraction\<close>

text \<open>
  Claim C2, as the code has it. The customer id used by a route is determined per route.
  For DATA it is the first match of \<open>id\<close>, whitespace, digits in the lowercased text, else
  \<open>arguments.customer_id\<close> when that key is present, else 1; the pattern \<open>customer\<close>,
  whitespace, digits is not tried. For MULTI_UPDATE it is the first match of \<open>customer\<close>,
  whitespace, digits, else \<open>arguments.customer_id\<close>, else 1, and for MULTI_COORD the same
  with default 0, where an id of 0 means that no customer is looked up and the first call
  goes to the support agent. The matched digits and the argument are converted with
  \<open>int\<close>: when the conversion succeeds, the id is the one in the first request the run
  makes; when it raises (more than 4300 digits, or an argument that \<open>int\<close> refuses), the
  run raises that error and makes no request.
\<close>

theorem C2_customer_id_per_route:
  assumes "tool req \<in> {''route_task'', ''route''}"
    and "args = (case arguments req of None \<Rightarrow> [] | Some d \<Rightarrow> d)"
    and "query = py_str (dict_get args ''text'' (JStr []))"
    and "router_call net req (start w) = (r, s')"
  shows "(classify_intent query = ''DATA'' \<longrightarrow>
            (\<forall>cid. id_chain (search_number ''id'' (lower query))
                     (map_of args ''customer_id'') 1 = Inr cid \<longrightarrow>
               take 1 (requests_made s')
                 = [(DataAgent, ''get_customer'', JObj [(''customer_id'', JInt cid)])])
            \<and> (\<forall>e. id_chain (search_number ''id'' (lower query))
                     (map_of args ''customer_id'') 1 = Inl e \<longrightarrow>
               requests_made s' = [] \<and> r = Inl e))
         \<and> (classify_intent query = ''MULTI_UPDATE'' \<longrightarrow>
            (\<forall>cid. id_chain (search_number ''customer'' (lower query))
                     (map_of args ''customer_id'') 1 = Inr cid \<longrightarrow>
               take 1 (requests_made s')
                 = [(DataAgent, ''update_customer'',
                     JObj [(''customer_id'', JInt cid),
                           (''data'', JObj [(''email'', extract_email args query)])])])
            \<and> (\<forall>e. id_chain (search_number ''customer'' (lower query))
                     (map_of args ''customer_id'') 1 = Inl e \<longrightarrow>
               requests_made s' = [] \<and> r = Inl e))
         \<and> (classify_intent query = ''MULTI_COORD'' \<longrightarrow>
            (\<forall>cid. id_chain (search_number ''customer'' (lower query))
                     (map_of args ''customer_id'') 0 = Inr cid \<longrightarrow>
               take 1 (requests_made s')
                 = (if cid = 0
                    then [(SupportAgent, ''simple_support_reply'', JObj [(''text'', JStr query)])]
                    else [(DataAgent, ''get_customer'', JObj [(''customer_id'', JInt cid)])]))
            \<and> (\<forall>e. id_chain (search_number ''customer'' (lower query))
                     (map_of args ''customer_id'') 0 = Inl e \<longrightarrow>
               requests_made s' = [] \<and> r = Inl e))"
proof -
  let ?s = "(start w)\<lparr>logs := []\<rparr>"
  have run: "dispatch net (classify_intent query) args query ?s = (r, s')"
    using assms by (simp add: router_call_def Let_def)
  have none: "calls ?s = []"
    by (simp add: start_def)
  have d: "data_branch net args query ?s = (r, s')" if "classify_intent query = ''DATA''"
    using run that by (simp add: dispatch_def)
  have u: "multi_update_branch net args query ?s = (r, s')"
    if "classify_intent query = ''MULTI_UPDATE''"
    using run that by (simp add: dispatch_def)
  have c: "multi_coord_branch net args query ?s = (r, s')"
    if "classify_intent query = ''MULTI_COORD''"
    using run that by (simp add: dispatch_def)
  have d1: "take 1 (requests_made s')
              = [(DataAgent, ''get_customer'', JObj [(''customer_id'', JInt cid)])]"
    if "classify_intent query = ''DATA''"
      and "id_chain (search_number ''id'' (lower query)) (map_of args ''customer_id'') 1 = Inr cid"
    for cid
    using data_branch_first [OF that(2) none, of net] d [OF that(1)] by simp
  have d2: "requests_made s' = [] \<and> r = Inl e"
    if "classify_intent query = ''DATA''"
      and "id_chain (search_number ''id'' (lower query)) (map_of args ''customer_id'') 1 = Inl e"
    for e
    using data_branch_no_id [OF that(2), of net ?s] d [OF that(1)] none
    by (simp add: requests_made_def)
  have u1: "take 1 (requests_made s')
              = [(DataAgent, ''update_customer'',
                  JObj [(''customer_id'', JInt cid),
                        (''data'', JObj [(''email'', extract_email args query)])])]"
    if "classify_intent query = ''MULTI_UPDATE''"
      and "id_chain (search_number ''customer'' (lower query)) (map_of args ''customer_id'') 1 = Inr cid"
    for cid
    using multi_update_branch_first [OF that(2) none, of net] u [OF that(1)] by simp
  have u2: "requests_made s' = [] \<and> r = Inl e"
    if "classify_intent query = ''MULTI_UPDATE''"
      and "id_chain (search_number ''customer'' (lower query)) (map_of args ''customer_id'') 1 = Inl e"
    for e
    using multi_update_branch_no_id [OF that(2), of net ?s] u [OF that(1)] none
    by (simp add: requests_made_def)
  have c1: "take 1 (requests_made s')
              = (if cid = 0
                 then [(SupportAgent, ''simple_support_reply'', JObj [(''text'', JStr query)])]
                 else [(DataAgent, ''get_customer'', JObj [(''customer_id'', JInt cid)])])"
    if "classify_intent query = ''MULTI_COORD''"
      and "id_chain (search_number ''customer'' (lower query)) (map_of args ''customer_id'') 0 = Inr cid"
    for cid
    using multi_coord_branch_first [OF that(2) none, of net] c [OF that(1)] by simp
  have c2: "requests_made s' = [] \<and> r = Inl e"
    if "classify_intent query = ''MULTI_COORD''"
      and "id_chain (search_number ''customer'' (lower query)) (map_of args ''customer_id'') 0 = Inl e"
    for e
    using multi_coord_branch_no_id [OF that(2), of net ?s] c [OF that(1)] none
    by (simp add: requests_made_def)
  from d1 d2 u1 u2 c1 c2 show ?thesis by blast
qed

theorem C2_customer_id_per_route_witness:
  "take 1 (requests_made (snd (router_call ana_net customer7_request (start ()))))
     = [(DataAgent, ''get_customer'', JObj [(''customer_id'', JInt 1)])]
   \<and> take 1 (requests_made (snd (router_call flaky_net update_request (start ()))))
     = [(DataAgent, ''update_customer'',
         JObj [(''customer_id'', JInt 1), (''data'', JObj [(''email'', JStr ''ann@x.org,'')])])]
   \<and> take 1 (requests_made (snd (router_call ana_net upgrade_request (start ()))))
     = [(DataAgent, ''get_customer'', JObj [(''customer_id'', JInt 7)])]
   \<and> requests_made (snd (router_call ana_net null_id_request (start ()))) = []
   \<and> fst (router_call ana_net null_id_request (start ())) = Inl TypeError"
proof (intro conjI)
  let ?args = "[(''text'', JStr ''customer 7'')]"
  let ?run = "router_call ana_net customer7_request (start ())"
  have t: "tool customer7_request \<in> {''route_task'', ''route''}"
    by (simp add: customer7_request_def)
  have a: "?args = (case arguments customer7_request of None \<Rightarrow> [] | Some d \<Rightarrow> d)"
    by (simp add: customer7_request_def)
  have q: "''customer 7'' = py_str (dict_get ?args ''text'' (JStr []))"
    by (simp add: dict_get_def)
  have run: "?run = (fst ?run, snd ?run)"
    by simp
  have i: "id_chain (search_number ''id'' (lower ''customer 7''))
             (map_of ?args ''customer_id'') 1 = Inr 1"
    by code_simp
  note c2 = C2_customer_id_per_route [OF t a q run]
  note all = c2 [THEN conjunct1, THEN mp, OF customer7_facts(1), THEN conjunct1]
  show "take 1 (requests_made (snd ?run))
     = [(DataAgent, ''get_customer'', JObj [(''customer_id'', JInt 1)])]"
    by (rule all [THEN spec, THEN mp, OF i])
next
  let ?text = "''Update my email to Ann@X.org, ticket history''"
  let ?args = "[(''text'', JStr ?text)]"
  let ?run = "router_call flaky_net update_request (start ())"
  have t: "tool update_request \<in> {''route_task'', ''route''}"
    by (simp add: update_request_def)
  have a: "?args = (case arguments update_request of None \<Rightarrow> [] | Some d \<Rightarrow> d)"
    by (simp add: update_request_def)
  have q: "?text = py_str (dict_get ?args ''text'' (JStr []))"
    by (simp add: dict_get_def)
  have run: "?run = (fst ?run, snd ?run)"
    by simp
  have i: "id_chain (search_number ''customer'' (lower ?text))
             (map_of ?args ''customer_id'') 1 = Inr 1"
    by code_simp
  have e: "extract_email ?args ?text = JStr ''ann@x.org,''"
    by (simp add: update_text_facts extract_email_def)
  note c2 = C2_customer_id_per_route [OF t a q run]
  note all = c2 [THEN conjunct2, THEN conjunct1, THEN mp, OF update_text_facts(1), THEN conjunct1]
  show "take 1 (requests_made (snd ?run))
     = [(DataAgent, ''update_customer'',
         JObj [(''customer_id'', JInt 1), (''data'', JObj [(''email'', JStr ''ann@x.org,'')])])]"
    using all [THEN spec, THEN mp, OF i] unfolding e .
next
  let ?args = "[(''text'', JStr ''customer 7 upgrade'')]"
  let ?run = "router_call ana_net upgrade_request (start ())"
  have t: "tool upgrade_request \<in> {''route_task'', ''route''}"
    by (simp add: upgrade_request_def)
  have a: "?args = (case arguments upgrade_request of None \<Rightarrow> [] | Some d \<Rightarrow> d)"
    by (simp add: upgrade_request_def)
  have q: "''customer 7 upgrade'' = py_str (dict_get ?args ''text'' (JStr []))"
    by (simp add: dict_get_def)
  have run: "?run = (fst ?run, snd ?run)"
    by simp
  have i: "id_chain (search_number ''customer'' (lower ''customer 7 upgrade''))
             (map_of ?args ''customer_id'') 0 = Inr 7"
    by code_simp
  note c2 = C2_customer_id_per_route [OF t a q run]
  note all = c2 [THEN conjunct2, THEN conjunct2, THEN mp, OF upgrade_text_facts(1), THEN conjunct1]
  have step: "take 1 (requests_made (snd ?run))
     = (if (7::int) = 0
        then [(SupportAgent, ''simple_support_reply'', JObj [(''text'', JStr ''customer 7 upgrade'')])]
        else [(DataAgent, ''get_customer'', JObj [(''customer_id'', JInt 7)])])"
    by (rule all [THEN spec, THEN mp, OF i])
  have pick: "(if (7::int) = 0
        then [(SupportAgent, ''simple_support_reply'', JObj [(''text'', JStr ''customer 7 upgrade'')])]
        else [(DataAgent, ''get_customer'', JObj [(''customer_id'', JInt 7)])])
      = [(DataAgent, ''get_customer'', JObj [(''customer_id'', JInt 7)])]"
    by simp
  from step pick
  show "take 1 (requests_made (snd ?run))
     = [(DataAgent, ''get_customer'', JObj [(''customer_id'', JInt 7)])]"
    by (rule trans)
next
  let ?args = "[(''text'', JStr ''customer''), (''customer_id'', JNull)]"
  let ?run = "router_call ana_net null_id_request (start ())"
  have t: "tool null_id_request \<in> {''route_task'', ''route''}"
    by (simp add: null_id_request_def)
  have a: "?args = (case arguments null_id_request of None \<Rightarrow> [] | Some d \<Rightarrow> d)"
    by (simp add: null_id_request_def)
  have q: "''customer'' = py_str (dict_get ?args ''text'' (JStr []))"
    by (simp add: dict_get_def)
  have run: "?run = (fst ?run, snd ?run)"
    by simp
  have cl: "classify_intent ''customer'' = ''DATA''"
    by code_simp
  have i: "id_chain (search_number ''id'' (lower ''customer''))
             (map_of ?args ''customer_id'') 1 = Inl TypeError"
    by code_simp
  note c2 = C2_customer_id_per_route [OF t a q run]
  note none = c2 [THEN conjunct1, THEN mp, OF cl, THEN conjunct2, THEN spec, THEN mp, OF i]
  show "requests_made (snd ?run) = []"
    by (rule none [THEN conjunct1])
  show "fst ?run = Inl TypeError"
    by (rule none [THEN conjunct2])
qed

text \<open>
  Claim C2 as stated fails: the text \<open>customer 7\<close> is classified as DATA, has no match of
  \<open>id\<close> and digits, comes with no \<open>arguments.customer_id\<close>, and has a match of \<open>customer\<close>
  and digits; the id used is 1, not 7.
\<close>

theorem C2_data_ignores_customer_number_counterexample:
  "classify_intent ''customer 7'' = ''DATA''
   \<and> search_number ''id'' (lower ''customer 7'') = None
   \<and> search_number ''customer'' (lower ''customer 7'') = Some ''7''
   \<and> arguments customer7_request = Some [(''text'', JStr ''customer 7'')]
   \<and> requests_made (snd (router_call ana_net customer7_request (start ())))
       = [(DataAgent, ''get_customer'', JObj [(''customer_id'', JInt 1)])]"
  by code_simp

subsection \<open>The DATA route\<close>

text \<open>
  Claim C3, as the code has it. When the \<open>get_customer\<close> call for id 5 returns the success
  result \<open>{customer: {id: 5, name: "Ana"}}\<close>, routing the text
  \<open>Get customer information for ID 5\<close> yields an envelope with scenario \<open>data\<close>, route
  \<open>router -> data\<close> and final exactly
  \<open>{type: "get_customer", customer_id: 5, customer: {customer: {id: 5, name: "Ana"}}}\<close>:
  the field \<open>customer\<close> of final holds the whole result of the collaborator.
\<close>

theorem C3_data_round_trip:
  assumes "t \<in> {''route_task'', ''route''}"
    and "decode_reply (fst (net DataAgent ''get_customer'' (JObj [(''customer_id'', JInt 5)]) w))
           = Inr (JObj [(''customer'', ana)])"
  shows "\<exists>env. fst (router_call net
               \<lparr>tool = t, arguments = Some [(''text'', JStr ''Get customer information for ID 5'')]\<rparr>
               (start w)) = Inr env
          \<and> py_index env ''scenario'' = Inr (JStr ''data'')
          \<and> py_index env ''route'' = Inr (JStr ''router -> data'')
          \<and> py_index env ''final'' =
               Inr (JObj [(''type'', JStr ''get_customer''), (''customer_id'', JInt 5),
                          (''customer'', JObj [(''customer'', ana)])])"
  using assms
  by (auto simp: router_call_def dict_get_def data_text dispatch_def data_branch_def data_id
      run_simps data_call_def and_then_agent_call_Inr start_def ret_def build_response_shape)

theorem C3_data_round_trip_witness:
  "decode_reply (fst (ana_net DataAgent ''get_customer'' (JObj [(''customer_id'', JInt 5)]) ()))
     = Inr (JObj [(''customer'', ana)])
   \<and> (\<exists>env. fst (router_call ana_net ana_request (start ())) = Inr env
        \<and> py_index env ''final'' =
             Inr (JObj [(''type'', JStr ''get_customer''), (''customer_id'', JInt 5),
                        (''customer'', JObj [(''customer'', ana)])]))"
proof -
  have r: "decode_reply (fst (ana_net DataAgent ''get_customer'' (JObj [(''customer_id'', JInt 5)]) ()))
     = Inr (JObj [(''customer'', ana)])"
    by (simp add: ana_net_def decode_reply_def dict_get_def)
  have t: "''route'' \<in> {''route_task'', ''route''}" by simp
  from C3_data_round_trip [of "''route''" ana_net "()", OF t r] r show ?thesis
    unfolding ana_request_def by blast
qed

text \<open>
  Claim C3 as stated fails: with that collaborator the field \<open>customer\<close> of final is not
  the customer \<open>{id: 5, name: "Ana"}\<close> but the result that wraps it.
\<close>

theorem C3_final_wraps_result_counterexample:
  "decode_reply (fst (ana_net DataAgent ''get_customer'' (JObj [(''customer_id'', JInt 5)]) ()))
     = Inr (JObj [(''customer'', ana)])
   \<and> final_of (fst (router_call ana_net ana_request (start ())))
       = Inr (JObj [(''type'', JStr ''get_customer''), (''customer_id'', JInt 5),
                    (''customer'', JObj [(''customer'', ana)])])
   \<and> final_of (fst (router_call ana_net ana_request (start ())))
       \<noteq> Inr (JObj [(''type'', JStr ''get_customer''), (''customer_id'', JInt 5),
                    (''customer'', ana)])"
  by code_simp

subsection \<open>The MULTI_OPEN route\<close>

text \<open>
  Claim C4, as the code has it. For every MULTI_OPEN request that completes, the run calls
  \<open>list_customers\<close> and then \<open>get_customer_history\<close> once for each listed customer, in
  the listed order, with that customer's id. A ticket counts as open iff its status is a
  string equal to \<open>open\<close> up to letter case; every customer without an open ticket is
  dropped; each kept customer yields name, email, phone, open_tickets (the number of its
  open tickets) and issues, the issue fields of its open tickets that are truthy (neither
  null nor empty), in ticket order; and final lists the kept customers in the order
  returned by \<open>list_customers\<close>.
\<close>

theorem C4_open_ticket_report:
  assumes "tool req \<in> {''route_task'', ''route''}"
    and "classify_intent (py_str (dict_get (case arguments req of None \<Rightarrow> [] | Some d \<Rightarrow> d)
           ''text'' (JStr []))) = ''MULTI_OPEN''"
    and "router_call net req (start w) = (Inr env, s')"
  shows "\<exists>c r new hs. calls s' = c # new
     \<and> (target c, sent_tool c, sent_arguments c)
         = (DataAgent, ''list_customers'', JObj [(''status'', JStr ''active''), (''limit'', JInt 200)])
     \<and> decode_reply (reply c) = Inr r
     \<and> map (\<lambda>c. decode_reply (reply c)) new = map Inr hs
     \<and> map (\<lambda>c. (target c, sent_tool c, sent_arguments c)) new
         = map (\<lambda>c. (DataAgent, ''get_customer_history'', JObj [(''customer_id'', field c ''id'')]))
             (listed r)
     \<and> py_index env ''final'' = Inr (JArr (open_report (zip (listed r) (map tickets_of hs))))"
proof -
  from assms have "multi_open_branch net ((start w)\<lparr>logs := []\<rparr>) = (Inr env, s')"
    by (simp add: run_is_dispatch dispatch_def)
  from multi_open_branch_Inr [OF this] obtain c r new hs where
    n: "calls s' = calls ((start w)\<lparr>logs := []\<rparr>) @ c # new"
      "(target c, sent_tool c, sent_arguments c)
         = (DataAgent, ''list_customers'', JObj [(''status'', JStr ''active''), (''limit'', JInt 200)])"
      "decode_reply (reply c) = Inr r"
      "map (\<lambda>c. decode_reply (reply c)) new = map Inr hs"
      "map (\<lambda>c. (target c, sent_tool c, sent_arguments c)) new
         = map (\<lambda>c. (DataAgent, ''get_customer_history'', JObj [(''customer_id'', field c ''id'')]))
             (listed r)"
      "logs s' = logs ((start w)\<lparr>logs := []\<rparr>) @ [''Router classified as MULTI'', ''Data Agent invoked via MCP'',
                            ''Support Agent generated coordinated response'']"
      "env = build_response (make_payload ''multi-intent'' ''router -> data -> support'' (logs s')
               (JArr (open_report (zip (listed r) (map tickets_of hs)))))"
    by atomize_elim
  from n(1) have "calls s' = c # new" by (simp add: start_def)
  moreover from n(7) have "py_index env ''final''
      = Inr (JArr (open_report (zip (listed r) (map tickets_of hs))))"
    by (simp add: envelope_fields)
  ultimately show ?thesis using n(2,3,4,5) by blast
qed

theorem C4_open_ticket_report_witness:
  "tool open_request \<in> {''route_task'', ''route''}
   \<and> (\<exists>env s'. router_call tickets_net open_request (start ()) = (Inr env, s')
        \<and> (\<exists>c r new hs. calls s' = c # new
             \<and> decode_reply (reply c) = Inr r
             \<and> map (\<lambda>c. decode_reply (reply c)) new = map Inr hs
             \<and> py_index env ''final''
                 = Inr (JArr (open_report (zip (listed r) (map tickets_of hs))))))"
proof -
  from run_completes [OF sample_runs_complete(1)] obtain env s'
    where run: "router_call tickets_net open_request (start ()) = (Inr env, s')" by blast
  from C4_open_ticket_report [OF sample_tools(1) sample_routes(1) run] run sample_tools(1)
  show ?thesis by blast
qed

text \<open>
  Claim C4 as stated fails on the issues: the first customer of the sample has two open
  tickets, both with an issue that is not null, one of them the empty text; the claim lists
  both issues, the router lists one.
\<close>

theorem C4_empty_issue_dropped_counterexample:
  "decode_reply (fst (tickets_net DataAgent ''get_customer_history''
       (JObj [(''customer_id'', JInt 1)]) ())) = Inr (JObj [(''tickets'', JArr ann_tickets)])
   \<and> open_tickets_of ann_tickets = ann_tickets
   \<and> issues_claimed ann_tickets = [JStr ''Login fails'', JStr []]
   \<and> final_of (fst (router_call tickets_net open_request (start ())))
       = Inr (JArr [JObj [(''name'', JStr ''Ann''), (''email'', JStr ''ann@x.org''),
                          (''phone'', JStr ''555-0101''), (''open_tickets'', JInt 2),
                          (''issues'', JArr [JStr ''Login fails''])]])"
  by code_simp

subsection \<open>The trace\<close>

text \<open>
  Claim C7, as the code has it. For every completed run the trace is the fixed sequence of
  stage lines of its route, appended in the order of execution, and not one line per
  collaborator call: two lines for DATA (one call), one line for SUPPORT (one call), three
  lines for MULTI_UPDATE (two calls), for MULTI_COORD three lines when the data agent was
  consulted (two calls) and two lines otherwise (one call), and for MULTI_OPEN always three
  lines, while the run makes one call to \<open>list_customers\<close> and one call to
  \<open>get_customer_history\<close> for each of the N listed customers. The envelope carries that
  trace.
\<close>

theorem C7_trace_is_stage_lines:
  assumes "tool req \<in> {''route_task'', ''route''}"
    and "route = classify_intent (py_str (dict_get (case arguments req of None \<Rightarrow> [] | Some d \<Rightarrow> d)
           ''text'' (JStr [])))"
    and "router_call net req (start w) = (Inr env, s')"
  shows "logs s' = stage_lines route (DataAgent \<in> target ` set (calls s'))
     \<and> py_index env ''logs'' = Inr (JArr (map JStr (logs s')))
     \<and> (route = ''DATA'' \<or> route = ''SUPPORT'' \<longrightarrow> length (calls s') = 1)
     \<and> (route = ''MULTI_UPDATE'' \<longrightarrow> length (calls s') = 2)
     \<and> (route = ''MULTI_COORD'' \<longrightarrow>
          length (calls s') = (if DataAgent \<in> target ` set (calls s') then 2 else 1))
     \<and> (route = ''MULTI_OPEN'' \<longrightarrow>
          (\<exists>c r new. calls s' = c # new \<and> decode_reply (reply c) = Inr r
             \<and> length new = length (listed r))
          \<and> length (logs s') = 3)"
proof -
  let ?args = "case arguments req of None \<Rightarrow> [] | Some d \<Rightarrow> d"
  let ?query = "py_str (dict_get ?args ''text'' (JStr []))"
  let ?s = "(start w)\<lparr>logs := []\<rparr>"
  have s: "calls ?s = []" "logs ?s = []" by (simp_all add: start_def)
  have run: "dispatch net route ?args ?query ?s = (Inr env, s')"
    using assms by (simp add: run_is_dispatch)
  from classify_intent_five [of ?query] assms(2)
  consider "route = ''DATA''" | "route = ''SUPPORT''" | "route = ''MULTI_OPEN''"
    | "route = ''MULTI_COORD''" | "route = ''MULTI_UPDATE''"
    by auto
  then show ?thesis
  proof cases
    case 1
    with run have "data_branch net ?args ?query ?s = (Inr env, s')" by (simp add: dispatch_def)
    from data_branch_Inr [OF this] obtain new fn where
      n: "calls s' = calls ?s @ new" "map target new = [DataAgent]"
      "logs s' = logs ?s @ [''Router classified as DATA'', ''Data Agent used MCP tools'']"
      "env = build_response (make_payload ''data'' ''router -> data'' (logs s') fn)"
      by atomize_elim
    from n(1) s have c: "calls s' = new" by simp
    from n(3) s have l: "logs s' = [''Router classified as DATA'', ''Data Agent used MCP tools'']"
      by simp
    show ?thesis
      unfolding c n(4) envelope_fields targets_facts [OF n(2)] l 1
      by (simp add: stage_lines_def)
  next
    case 2
    with run have "support_branch net ?query ?s = (Inr env, s')" by (simp add: dispatch_def)
    from support_branch_Inr [OF this] obtain new fn where
      n: "calls s' = calls ?s @ new" "map target new = [SupportAgent]"
      "logs s' = logs ?s @ [''Router classified as SUPPORT'']"
      "env = build_response (make_payload ''support'' ''router -> support'' (logs s') fn)"
      by atomize_elim
    from n(1) s have c: "calls s' = new" by simp
    from n(3) s have l: "logs s' = [''Router classified as SUPPORT'']" by simp
    show ?thesis
      unfolding c n(4) envelope_fields targets_facts [OF n(2)] l 2
      by (simp add: stage_lines_def)
  next
    case 3
    with run have "multi_open_branch net ?s = (Inr env, s')" by (simp add: dispatch_def)
    from multi_open_branch_Inr [OF this] obtain c r new hs where
      n: "calls s' = calls ?s @ c # new"
      "(target c, sent_tool c, sent_arguments c)
         = (DataAgent, ''list_customers'', JObj [(''status'', JStr ''active''), (''limit'', JInt 200)])"
      "decode_reply (reply c) = Inr r"
      "map (\<lambda>c. decode_reply (reply c)) new = map Inr hs"
      "map (\<lambda>c. (target c, sent_tool c, sent_arguments c)) new
         = map (\<lambda>c. (DataAgent, ''get_customer_history'', JObj [(''customer_id'', field c ''id'')]))
             (listed r)"
      "logs s' = logs ?s @ [''Router classified as MULTI'', ''Data Agent invoked via MCP'',
                  ''Support Agent generated coordinated response'']"
      "env = build_response (make_payload ''multi-intent'' ''router -> data -> support'' (logs s')
               (JArr (open_report (zip (listed r) (map tickets_of hs)))))"
      by atomize_elim
    from n(1) s have c: "calls s' = c # new" by simp
    from n(6) s have l: "logs s' = [''Router classified as MULTI'', ''Data Agent invoked via MCP'',
                  ''Support Agent generated coordinated response'']" by simp
    from n(2) have t: "target c = DataAgent" by simp
    from n(5) have "length (map (\<lambda>c. (target c, sent_tool c, sent_arguments c)) new)
        = length (map (\<lambda>c. (DataAgent, ''get_customer_history'', JObj [(''customer_id'', field c ''id'')]))
             (listed r))" by (rule arg_cong)
    then have len: "length new = length (listed r)" by simp
    have ex: "\<exists>c r new. calls s' = c # new \<and> decode_reply (reply c) = Inr r
             \<and> length new = length (listed r)"
      using c n(3) len by blast
    have "DataAgent \<in> target ` set (calls s')" using c t by (simp add: image_iff)
    with ex show ?thesis
      unfolding n(7) envelope_fields l 3 by (simp add: stage_lines_def)
  next
    case 4
    with run have "multi_coord_branch net ?args ?query ?s = (Inr env, s')"
      by (simp add: dispatch_def)
    from multi_coord_branch_Inr [OF this] obtain new fn where
      n: "calls s' = calls ?s @ new"
      "map target new = [DataAgent, SupportAgent]
          \<and> logs s' = logs ?s @ [''Router classified as MULTI'', ''Data Agent invoked via MCP'',
                        ''Support Agent generated coordinated response'']
        \<or> map target new = [SupportAgent]
          \<and> logs s' = logs ?s @ [''Router classified as MULTI'',
                        ''Support Agent generated coordinated response'']"
      "env = build_response (make_payload ''multi-intent'' ''router -> data -> support'' (logs s') fn)"
      by atomize_elim
    from n(1) s have c: "calls s' = new" by simp
    from n(2) show ?thesis
    proof
      assume a: "map target new = [DataAgent, SupportAgent]
          \<and> logs s' = logs ?s @ [''Router classified as MULTI'', ''Data Agent invoked via MCP'',
                        ''Support Agent generated coordinated response'']"
      then have l: "logs s' = [''Router classified as MULTI'', ''Data Agent invoked via MCP'',
                        ''Support Agent generated coordinated response'']" using s by simp
      from a have m: "map target new = [DataAgent, SupportAgent]" by blast
      show ?thesis
        unfolding c n(3) envelope_fields targets_facts [OF m] l 4
        by (simp add: stage_lines_def)
    next
      assume a: "map target new = [SupportAgent]
          \<and> logs s' = logs ?s @ [''Router classified as MULTI'',
                        ''Support Agent generated coordinated response'']"
      then have l: "logs s' = [''Router classified as MULTI'',
                        ''Support Agent generated coordinated response'']" using s by simp
      from a have m: "map target new = [SupportAgent]" by blast
      show ?thesis
        unfolding c n(3) envelope_fields targets_facts [OF m] l 4
        by (simp add: stage_lines_def)
    qed
  next
    case 5
    with run have "multi_update_branch net ?args ?query ?s = (Inr env, s')"
      by (simp add: dispatch_def)
    from multi_update_branch_Inr [OF this] obtain new fn where
      n: "calls s' = calls ?s @ new" "map target new = [DataAgent, DataAgent]"
      "logs s' = logs ?s @ [''Router classified as MULTI'', ''Data Agent invoked via MCP'',
                  ''Support Agent generated coordinated response'']"
      "env = build_response (make_payload ''multi-intent'' ''router -> data -> support'' (logs s') fn)"
      by atomize_elim
    from n(1) s have c: "calls s' = new" by simp
    from n(3) s have l: "logs s' = [''Router classified as MULTI'', ''Data Agent invoked via MCP'',
                  ''Support Agent generated coordinated response'']" by simp
    show ?thesis
      unfolding c n(4) envelope_fields targets_facts [OF n(2)] l 5
      by (simp add: stage_lines_def)
  qed
qed

theorem C7_trace_is_stage_lines_witness:
  "(\<exists>env s'. router_call tickets_net open_request (start ()) = (Inr env, s')
      \<and> logs s' = [''Router classified as MULTI'', ''Data Agent invoked via MCP'',
                    ''Support Agent generated coordinated response'']
      \<and> (\<exists>c r new. calls s' = c # new \<and> decode_reply (reply c) = Inr r
            \<and> length new = length (listed r)))
   \<and> (\<exists>env s'. router_call ana_net ana_request (start ()) = (Inr env, s')
      \<and> logs s' = [''Router classified as DATA'', ''Data Agent used MCP tools'']
      \<and> length (calls s') = 1)
   \<and> (\<exists>env s'. router_call tickets_net update_request (start ()) = (Inr env, s')
      \<and> logs s' = [''Router classified as MULTI'', ''Data Agent invoked via MCP'',
                    ''Support Agent generated coordinated response'']
      \<and> length (calls s') = 2)
   \<and> (\<exists>env s'. router_call ana_net upgrade_request (start ()) = (Inr env, s')
      \<and> logs s' = stage_lines ''MULTI_COORD'' (DataAgent \<in> target ` set (calls s'))
      \<and> length (calls s') = (if DataAgent \<in> target ` set (calls s') then 2 else 1))
   \<and> (\<exists>env s'. router_call ana_net refund_request (start ()) = (Inr env, s')
      \<and> logs s' = [''Router classified as SUPPORT'']
      \<and> length (calls s') = 1)"
proof (intro conjI)
  from run_completes [OF sample_runs_complete(1)] obtain env s'
    where run: "router_call tickets_net open_request (start ()) = (Inr env, s')" by blast
  from C7_trace_is_stage_lines [OF sample_tools(1) sample_routes(1) [symmetric] run]
  have "logs s' = stage_lines ''MULTI_OPEN'' (DataAgent \<in> target ` set (calls s'))"
    and "\<exists>c r new. calls s' = c # new \<and> decode_reply (reply c) = Inr r
            \<and> length new = length (listed r)"
    by blast+
  with run show "\<exists>env s'. router_call tickets_net open_request (start ()) = (Inr env, s')
      \<and> logs s' = [''Router classified as MULTI'', ''Data Agent invoked via MCP'',
                    ''Support Agent generated coordinated response'']
      \<and> (\<exists>c r new. calls s' = c # new \<and> decode_reply (reply c) = Inr r
            \<and> length new = length (listed r))"
    by (simp add: stage_lines_def)
next
  from run_completes [OF sample_runs_complete(2)] obtain env s'
    where run: "router_call ana_net ana_request (start ()) = (Inr env, s')" by blast
  from C7_trace_is_stage_lines [OF sample_tools(2) sample_routes(2) [symmetric] run]
  have "logs s' = stage_lines ''DATA'' (DataAgent \<in> target ` set (calls s'))"
    and "length (calls s') = 1"
    by blast+
  with run show "\<exists>env s'. router_call ana_net ana_request (start ()) = (Inr env, s')
      \<and> logs s' = [''Router classified as DATA'', ''Data Agent used MCP tools'']
      \<and> length (calls s') = 1"
    by (simp add: stage_lines_def)
next
  from run_completes [OF sample_runs_complete(3)] obtain env s'
    where run: "router_call tickets_net update_request (start ()) = (Inr env, s')" by blast
  from C7_trace_is_stage_lines [OF sample_tools(3) sample_routes(3) [symmetric] run]
  have "logs s' = stage_lines ''MULTI_UPDATE'' (DataAgent \<in> target ` set (calls s'))"
    and "length (calls s') = 2"
    by blast+
  with run show "\<exists>env s'. router_call tickets_net update_request (start ()) = (Inr env, s')
      \<and> logs s' = [''Router classified as MULTI'', ''Data Agent invoked via MCP'',
                    ''Support Agent generated coordinated response'']
      \<and> length (calls s') = 2"
    by (simp add: stage_lines_def)
next
  from run_completes [OF sample_runs_complete(4)] obtain env s'
    where run: "router_call ana_net upgrade_request (start ()) = (Inr env, s')" by blast
  from C7_trace_is_stage_lines [OF sample_tools(4) sample_routes(4) [symmetric] run]
  have "logs s' = stage_lines ''MULTI_COORD'' (DataAgent \<in> target ` set (calls s'))"
    and "length (calls s') = (if DataAgent \<in> target ` set (calls s') then 2 else 1)"
    by blast+
  with run show "\<exists>env s'. router_call ana_net upgrade_request (start ()) = (Inr env, s')
      \<and> logs s' = stage_lines ''MULTI_COORD'' (DataAgent \<in> target ` set (calls s'))
      \<and> length (calls s') = (if DataAgent \<in> target ` set (calls s') then 2 else 1)"
    by blast
next
  from run_completes [OF sample_runs_complete(5)] obtain env s'
    where run: "router_call ana_net refund_request (start ()) = (Inr env, s')" by blast
  from C7_trace_is_stage_lines [OF sample_tools(5) sample_routes(5) [symmetric] run]
  have "logs s' = stage_lines ''SUPPORT'' (DataAgent \<in> target ` set (calls s'))"
    and "length (calls s') = 1"
    by blast+
  with run show "\<exists>env s'. router_call ana_net refund_request (start ()) = (Inr env, s')
      \<and> logs s' = [''Router classified as SUPPORT'']
      \<and> length (calls s') = 1"
    by (simp add: stage_lines_def)
qed

text \<open>
  Claim C7 as stated fails: the MULTI_OPEN run over three listed customers completes four
  calls and its trace has three lines, one of them the classification line.
\<close>

theorem C7_open_plan_counterexample:
  "map sent_tool (calls (snd (router_call tickets_net open_request (start ()))))
     = [''list_customers'', ''get_customer_history'', ''get_customer_history'',
        ''get_customer_history'']
   \<and> bind_e (fst (router_call tickets_net open_request (start ()))) (\<lambda>env. py_index env ''logs'')
     = Inr (JArr [JStr ''Router classified as MULTI'', JStr ''Data Agent invoked via MCP'',
                  JStr ''Support Agent generated coordinated response''])
   \<and> length (calls (snd (router_call tickets_net open_request (start ())))) = 4
   \<and> length (logs (snd (router_call tickets_net open_request (start ())))) = 3"
  by code_simp

subsection \<open>The MULTI_UPDATE route\<close>

text \<open>
  Claim C9. For every MULTI_UPDATE request whose text contains, in any letter case, the
  phrase \<open>update my email to\<close> followed by a token (a maximal run of characters that are
  not whitespace), the first such occurrence being the one taken, the email passed to
  \<open>update_customer\<close> and printed in the confirmation header is the lowercased form of
  the token as it appeared in the request. The \<open>update_customer\<close> request is the first
  request of the run whenever the customer id of the route is determined, that is, its
  conversion with \<open>int\<close> does not raise.
\<close>

theorem C9_email_is_lowercased:
  assumes "tool req \<in> {''route_task'', ''route''}"
    and "args = (case arguments req of None \<Rightarrow> [] | Some d \<Rightarrow> d)"
    and "query = py_str (dict_get args ''text'' (JStr []))"
    and "classify_intent query = ''MULTI_UPDATE''"
    and "query = pre @ phrase @ tok @ rest"
    and "lower phrase = ''update my email to ''"
    and "tok \<noteq> []" and "\<forall>c \<in> set tok. \<not> is_space c" and "rest \<noteq> [] \<longrightarrow> is_space (hd rest)"
    and "\<forall>p w c suf. query = p @ w @ c # suf \<and> lower w = ''update my email to ''
            \<and> length p < length pre \<longrightarrow> is_space c"
    and "router_call net req (start w0) = (r, s')"
  shows "(\<forall>rq \<in> set (requests_made s'). fst (snd rq) = ''update_customer'' \<longrightarrow>
            (\<exists>cid. snd (snd rq) = JObj [(''customer_id'', JInt cid),
                                        (''data'', JObj [(''email'', JStr (lower tok))])]))
         \<and> (\<forall>cid. id_chain (search_number ''customer'' (lower query))
                     (map_of args ''customer_id'') 1 = Inr cid \<longrightarrow>
              take 1 (requests_made s')
                = [(DataAgent, ''update_customer'',
                    JObj [(''customer_id'', JInt cid),
                          (''data'', JObj [(''email'', JStr (lower tok))])])])
         \<and> (\<forall>env. r = Inr env \<longrightarrow>
              (\<exists>more. py_index env ''final''
                 = Inr (JStr (''Your email has been successfully updated to '' @ lower tok
                              @ [CHR ''.'', CHR 0x0A] @ more))))"
proof -
  let ?s = "(start w0)\<lparr>logs := []\<rparr>"
  have none: "calls ?s = []" by (simp add: start_def)
  have email: "extract_email args query = JStr (lower tok)"
    by (rule extract_email_lower_token [OF assms(5,6,7,8,9,10)])
  have "router_call net req (start w0) = multi_update_branch net args query ?s"
    using assms(1,2,3,4) by (simp add: router_call_def Let_def dispatch_def)
  with assms(11) have run: "multi_update_branch net args query ?s = (r, s')" by simp
  then have s': "s' = snd (multi_update_branch net args query ?s)" by simp
  have 1: "\<forall>rq \<in> set (requests_made s'). fst (snd rq) = ''update_customer'' \<longrightarrow>
            (\<exists>cid. snd (snd rq) = JObj [(''customer_id'', JInt cid),
                                        (''data'', JObj [(''email'', JStr (lower tok))])])"
    unfolding s' email [symmetric] using multi_update_requests [OF none] by blast
  have 2: "take 1 (requests_made s')
             = [(DataAgent, ''update_customer'',
                 JObj [(''customer_id'', JInt cid),
                       (''data'', JObj [(''email'', JStr (lower tok))])])]"
    if "id_chain (search_number ''customer'' (lower query)) (map_of args ''customer_id'') 1 = Inr cid"
    for cid
    unfolding s' email [symmetric] by (rule multi_update_branch_first [OF that none])
  have 3: "\<exists>more. py_index env ''final''
                 = Inr (JStr (''Your email has been successfully updated to '' @ lower tok
                              @ [CHR ''.'', CHR 0x0A] @ more))" if "r = Inr env" for env
  proof -
    from run that have "multi_update_branch net args query ?s = (Inr env, s')" by simp
    from multi_update_branch_final [OF this] obtain more where
      "py_index env ''final'' = Inr (JStr (update_header (extract_email args query) @ more))"
      by blast
    then have "py_index env ''final''
        = Inr (JStr (''Your email has been successfully updated to '' @ lower tok
                     @ [CHR ''.'', CHR 0x0A] @ more))"
      unfolding email update_header_def py_str.simps append_assoc .
    then show ?thesis by blast
  qed
  from 1 2 3 show ?thesis by blast
qed

theorem C9_email_is_lowercased_witness:
  "take 1 (requests_made (snd (router_call tickets_net update_request (start ()))))
     = [(DataAgent, ''update_customer'',
         JObj [(''customer_id'', JInt 1),
               (''data'', JObj [(''email'', JStr ''ann@x.org,'')])])]
   \<and> (\<exists>env more. fst (router_call tickets_net update_request (start ())) = Inr env
        \<and> py_index env ''final''
            = Inr (JStr (''Your email has been successfully updated to '' @ ''ann@x.org,''
                         @ [CHR ''.'', CHR 0x0A] @ more)))"
proof -
  let ?text = "''Update my email to Ann@X.org, ticket history''"
  let ?args = "[(''text'', JStr ?text)]"
  have a: "?args = (case arguments update_request of None \<Rightarrow> [] | Some d \<Rightarrow> d)"
    by (simp add: update_request_def)
  have q: "?text = py_str (dict_get ?args ''text'' (JStr []))"
    by (simp add: dict_get_def)
  have f: "\<forall>p w c suf. ?text = p @ w @ c # suf \<and> lower w = ''update my email to ''
            \<and> length p < length ([]::string) \<longrightarrow> is_space c"
    by simp
  have i: "id_chain (search_number ''customer'' (lower ?text))
             (map_of ?args ''customer_id'') 1 = Inr 1"
    by code_simp
  from run_completes [OF sample_runs_complete(3)] obtain env s'
    where run: "router_call tickets_net update_request (start ()) = (Inr env, s')" by blast
  note c9 = C9_email_is_lowercased [OF sample_tools(3) a q update_text_facts(1)
      update_token_facts(1,2) _ update_token_facts(4,5) f run, unfolded update_token_facts(3)]
  have ne: "''Ann@X.org,'' \<noteq> []" by simp
  note first = c9 [OF ne, THEN conjunct2, THEN conjunct1, THEN spec, THEN mp, OF i]
  note final = c9 [OF ne, THEN conjunct2, THEN conjunct2, THEN spec, THEN mp, OF refl]
  from first final run show ?thesis
    by (metis fst_conv snd_conv)
qed

end
